theory Spec2Isabelle
  imports Complex_Main
begin

section \<open>Numbers, constants and the obstacle record\<close>

text \<open>
  The program computes with JavaScript numbers. They are modelled as mathematical
  reals: rounding, NaN and the infinities of IEEE doubles are outside the model. The one
  place where the source uses \<^verbatim>\<open>Infinity\<close> (the initial best cost of a search) is
  modelled by an option. Chunk coordinates are integers (results of \<^verbatim>\<open>Math.round\<close>).
\<close>

record layer =
  count :: nat
  minScale :: real
  maxScale :: real

text \<open>\<^verbatim>\<open>ROCK_LAYERS\<close> of Rover.tsx: gigantic, massive, large.\<close>

definition ROCK_LAYERS :: "layer list" where
  "ROCK_LAYERS =
     [\<lparr>count = 1, minScale = 22, maxScale = 32\<rparr>,
      \<lparr>count = 3, minScale = 9, maxScale = 15\<rparr>,
      \<lparr>count = 25, minScale = 1.5, maxScale = 3.5\<rparr>]"

definition CHUNK_SIZE :: real where
  "CHUNK_SIZE = 80"

definition RUNNABLE_ROCK_SCALE :: real where
  "RUNNABLE_ROCK_SCALE = 2.5"

text \<open>
  \<^verbatim>\<open>interface Obstacle\<close>. The id is the template string \<^verbatim>\<open>`${cx}:${cz}:${i}`\<close>; the
  three numbers it prints are kept as a triple, of which the string is an injective
  rendering, so that two ids are equal exactly when the strings are.
\<close>

type_synonym obstacle_id = "int \<times> int \<times> nat"

record obstacle =
  obs_id :: obstacle_id
  obs_x :: real
  obs_z :: real
  obs_radius :: real
  obs_scale :: real

section \<open>The chunk obstacle generator (Rover.tsx, getObstaclesInChunk)\<close>

text \<open>
  \<^verbatim>\<open>const s = Math.sin(seedBase + idx) * 43758.5453; return s - Math.floor(s);\<close>
\<close>

definition pseudoRandom :: "real \<Rightarrow> real \<Rightarrow> real" where
  "pseudoRandom seedBase idx =
     (let s = sin (seedBase + idx) * 43758.5453 in s - of_int \<lfloor>s\<rfloor>)"

definition chunkSeed :: "real \<Rightarrow> real \<Rightarrow> real" where
  "chunkSeed offsetX offsetZ = offsetX * 123.45 + offsetZ * 678.91"

text \<open>The body of the while loop of one layer, at index \<open>i\<close>: the obstacle it pushes.\<close>

definition rockAt :: "int \<Rightarrow> int \<Rightarrow> layer \<Rightarrow> nat \<Rightarrow> obstacle" where
  "rockAt cx cz lay i =
     (let offsetX = of_int cx * CHUNK_SIZE;
          offsetZ = of_int cz * CHUNK_SIZE;
          seedBase = chunkSeed offsetX offsetZ;
          r3 = pseudoRandom seedBase (of_nat i * 3 + 2);
          s = minScale lay + r3 * (maxScale lay - minScale lay);
          r1 = pseudoRandom seedBase (of_nat i * 3 + 0);
          r2 = pseudoRandom seedBase (of_nat i * 3 + 1);
          wx = (r1 - 0.5) * CHUNK_SIZE + offsetX;
          wz = (r2 - 0.5) * CHUNK_SIZE + offsetZ;
          wx' = (if s > 8.0
                 then (let SAFE_ZONE = 25.0 in
                       if \<bar>wx\<bar> < SAFE_ZONE
                       then (let pushDir = (if wx \<ge> 0 then 1 else - 1);
                                 offset = SAFE_ZONE + (r1 * 10)
                             in pushDir * offset)
                       else wx)
                 else wx)
      in \<lparr>obs_id = (cx, cz, i), obs_x = wx', obs_z = wz,
          obs_radius = s + 1.5, obs_scale = s\<rparr>)"

text \<open>\<^verbatim>\<open>let i = 0; while (i < layer.count) { ...; obstacles.push(...); i++ }\<close>\<close>

function rockLoop :: "int \<Rightarrow> int \<Rightarrow> layer \<Rightarrow> nat \<Rightarrow> obstacle list \<Rightarrow> obstacle list" where
  "rockLoop cx cz lay i obstacles =
     (if i < count lay
      then rockLoop cx cz lay (Suc i) (obstacles @ [rockAt cx cz lay i])
      else obstacles)"
  by pat_completeness auto
termination
  by (relation "measure (\<lambda>(cx, cz, lay, i, obstacles). count lay - i)") auto

declare rockLoop.simps [simp del]

text \<open>\<^verbatim>\<open>ROCK_LAYERS.forEach((layer) => { ... })\<close> over the shared result array.\<close>

definition getObstaclesInChunk :: "int \<Rightarrow> int \<Rightarrow> obstacle list" where
  "getObstaclesInChunk cx cz =
     foldl (\<lambda>obstacles lay. rockLoop cx cz lay 0 obstacles) [] ROCK_LAYERS"

section \<open>The height field (utils/noise.ts)\<close>

definition hash :: "real \<Rightarrow> real \<Rightarrow> real" where
  "hash x z = (let h = sin (x * 12.9898 + z * 78.233) * 43758.5453123 in h - of_int \<lfloor>h\<rfloor>)"

definition noise :: "real \<Rightarrow> real \<Rightarrow> real" where
  "noise x z =
     (let iX = of_int \<lfloor>x\<rfloor>;
          iZ = of_int \<lfloor>z\<rfloor>;
          fX = x - iX;
          fZ = z - iZ;
          u = fX * fX * (3.0 - 2.0 * fX);
          v = fZ * fZ * (3.0 - 2.0 * fZ);
          bl = hash iX iZ;
          br = hash (iX + 1) iZ;
          tl = hash iX (iZ + 1);
          tr = hash (iX + 1) (iZ + 1)
      in (bl * (1.0 - u) + br * u) * (1.0 - v) + (tl * (1.0 - u) + tr * u) * v)"

definition simpleNoise :: "real \<Rightarrow> real \<Rightarrow> real \<Rightarrow> real" where
  "simpleNoise x z seed =
     (let scale = 0.025;
          nx = x * scale;
          nz = z * scale;
          qx = noise (nx + seed) (nz + seed);
          qz = noise (nx + 5.2 + seed) (nz + 1.3 + seed);
          rx = noise (nx + 4.0 * qx + 1.7) (nz + 4.0 * qz + 9.2);
          rz = noise (nx + 4.0 * qx + 8.3) (nz + 4.0 * qz + 2.8);
          elevation = noise (nx + 4.0 * rx) (nz + 4.0 * rz);
          elevation = elevation + 0.5 * noise (nx * 2.0) (nz * 2.0);
          elevation = elevation + 0.25 * noise (nx * 4.0) (nz * 4.0);
          h = (elevation - 0.7) * 6.0;
          h = h + (sin (nx * 0.4) * 1.2 + cos (nz * 0.3) * 1.2);
          h = h + noise (x * 0.8) (z * 0.8) * 0.6
      in h)"

text \<open>\<^verbatim>\<open>getBaseTerrainHeight = (wx, wz) => simpleNoise(wx, wz, 42) - 2.0\<close>\<close>

definition getBaseTerrainHeight :: "real \<Rightarrow> real \<Rightarrow> real" where
  "getBaseTerrainHeight wx wz = simpleNoise wx wz 42 - 2.0"

section \<open>The visual rock placement (ScatteredRocks.tsx)\<close>

text \<open>
  One instance of the instanced mesh: the world position the loop computes, the local
  position and height it writes into the instance matrix, the three rotation angles
  and the scale.
\<close>

record placement =
  worldX :: real
  worldZ :: real
  rockScale :: real
  localX :: real
  localY :: real
  localZ :: real
  rotation :: "real \<times> real \<times> real"

definition placeAt :: "real \<Rightarrow> real \<Rightarrow> real \<Rightarrow> real \<Rightarrow> real \<Rightarrow> nat \<Rightarrow> placement" where
  "placeAt minScale' maxScale' chunkSize offsetX offsetZ i =
     (let seedBase = offsetX * 123.45 + offsetZ * 678.91;
          r3 = pseudoRandom seedBase (of_nat i * 3 + 2);
          scale = minScale' + r3 * (maxScale' - minScale');
          r1 = pseudoRandom seedBase (of_nat i * 3 + 0);
          r2 = pseudoRandom seedBase (of_nat i * 3 + 1);
          lX = (r1 - 0.5) * chunkSize;
          lZ = (r2 - 0.5) * chunkSize;
          wX = lX + offsetX;
          wZ = lZ + offsetZ;
          (wX, lX) =
            (if scale > 8.0
             then (let SAFE_ZONE = 25.0 in
                   if \<bar>wX\<bar> < SAFE_ZONE
                   then (let pushDir = (if wX \<ge> 0 then 1 else - 1);
                             offset = SAFE_ZONE + (r1 * 10);
                             wX = pushDir * offset
                         in (wX, wX - offsetX))
                   else (wX, lX))
             else (wX, lX));
          groundHeight = simpleNoise wX wZ 42;
          y = - 2 + groundHeight - (scale * 0.4) - 0.2
      in \<lparr>worldX = wX, worldZ = wZ, rockScale = scale,
          localX = lX, localY = y, localZ = lZ,
          rotation = (pseudoRandom seedBase (of_nat i * 4) * pi,
                      pseudoRandom seedBase (of_nat i * 4 + 1) * pi,
                      pseudoRandom seedBase (of_nat i * 4 + 2) * pi)\<rparr>)"

function placeLoop ::
  "nat \<Rightarrow> real \<Rightarrow> real \<Rightarrow> real \<Rightarrow> real \<Rightarrow> real \<Rightarrow> nat \<Rightarrow> placement list \<Rightarrow> placement list" where
  "placeLoop count' minScale' maxScale' chunkSize offsetX offsetZ i acc =
     (if i < count'
      then placeLoop count' minScale' maxScale' chunkSize offsetX offsetZ (Suc i)
             (acc @ [placeAt minScale' maxScale' chunkSize offsetX offsetZ i])
      else acc)"
  by pat_completeness auto
termination
  by (relation "measure (\<lambda>(c, mn, mx, cs, ox, oz, i, acc). c - i)") auto

declare placeLoop.simps [simp del]

text \<open>The instances of one \<^verbatim>\<open><ScatteredRocks>\<close> element, in index order.\<close>

definition scatteredRocks ::
  "nat \<Rightarrow> real \<Rightarrow> real \<Rightarrow> real \<Rightarrow> real \<Rightarrow> real \<Rightarrow> placement list" where
  "scatteredRocks count' minScale' maxScale' chunkSize offsetX offsetZ =
     placeLoop count' minScale' maxScale' chunkSize offsetX offsetZ 0 []"

text \<open>
  Scene.tsx, InfiniteTerrain: the rock elements of the chunk with coordinates
  \<open>(chunkX, chunkZ)\<close>, all given \<^verbatim>\<open>offsetX = chunkX * CHUNK_SIZE\<close> and
  \<^verbatim>\<open>offsetZ = chunkZ * CHUNK_SIZE\<close>. The fourth element (100 pebbles of scale 0.1 to
  0.4) has no counterpart in \<^verbatim>\<open>ROCK_LAYERS\<close>.
\<close>

definition sceneRockProps :: "(nat \<times> real \<times> real) list" where
  "sceneRockProps = [(1, 22, 32), (3, 9, 15), (25, 1.5, 3.5), (100, 0.1, 0.4)]"

definition sceneRocks :: "int \<Rightarrow> int \<Rightarrow> placement list list" where
  "sceneRocks chunkX chunkZ =
     map (\<lambda>(c, mn, mx). scatteredRocks c mn mx CHUNK_SIZE
            (of_int chunkX * CHUNK_SIZE) (of_int chunkZ * CHUNK_SIZE))
       sceneRockProps"

text \<open>The position before the corridor rule, as line 519 computes it.\<close>

definition baseX :: "int \<Rightarrow> int \<Rightarrow> nat \<Rightarrow> real" where
  "baseX cx cz i =
     (pseudoRandom (chunkSeed (of_int cx * CHUNK_SIZE) (of_int cz * CHUNK_SIZE))
        (of_nat i * 3 + 0) - 0.5) * CHUNK_SIZE + of_int cx * CHUNK_SIZE"

definition baseZ :: "int \<Rightarrow> int \<Rightarrow> nat \<Rightarrow> real" where
  "baseZ cx cz i =
     (pseudoRandom (chunkSeed (of_int cx * CHUNK_SIZE) (of_int cz * CHUNK_SIZE))
        (of_nat i * 3 + 1) - 0.5) * CHUNK_SIZE + of_int cz * CHUNK_SIZE"


section \<open>Drivable surface height (Rover.tsx, getSurfaceHeight)\<close>

text \<open>
  The loop over the cached obstacles, with the running height \<open>h\<close>. An obstacle at or
  above the runnable scale is skipped (\<^verbatim>\<open>continue\<close>).
\<close>

fun surfaceLoop :: "obstacle list \<Rightarrow> real \<Rightarrow> real \<Rightarrow> real \<Rightarrow> real" where
  "surfaceLoop [] wx wz h = h"
| "surfaceLoop (obs # rest) wx wz h =
     (if obs_scale obs \<ge> RUNNABLE_ROCK_SCALE then surfaceLoop rest wx wz h
      else
        (let dx = wx - obs_x obs;
             dz = wz - obs_z obs;
             distSq = dx * dx + dz * dz;
             physRadius = obs_scale obs * 0.9
         in if distSq < physRadius * physRadius
            then (let rockGroundH = getBaseTerrainHeight (obs_x obs) (obs_z obs);
                      rockCenterY = rockGroundH - (obs_scale obs * 0.4);
                      sphereH = sqrt (max 0 (physRadius * physRadius - distSq));
                      surfaceY = rockCenterY + sphereH
                  in surfaceLoop rest wx wz (if surfaceY > h then surfaceY else h))
            else surfaceLoop rest wx wz h))"

definition getSurfaceHeight :: "obstacle list \<Rightarrow> real \<Rightarrow> real \<Rightarrow> real" where
  "getSurfaceHeight obstaclesCache wx wz =
     surfaceLoop obstaclesCache wx wz (getBaseTerrainHeight wx wz)"

section \<open>The rover's state\<close>

record vec3 =
  vx :: real
  vy :: real
  vz :: real

definition addScalar :: "vec3 \<Rightarrow> real \<Rightarrow> vec3" where
  "addScalar v c = \<lparr>vx = vx v + c, vy = vy v + c, vz = vz v + c\<rparr>"

definition multiplyScalar :: "vec3 \<Rightarrow> real \<Rightarrow> vec3" where
  "multiplyScalar v c = \<lparr>vx = vx v * c, vy = vy v * c, vz = vz v * c\<rparr>"

text \<open>\<^verbatim>\<open>THREE.MathUtils.lerp\<close> and \<^verbatim>\<open>THREE.MathUtils.clamp\<close>, as three.js defines them.\<close>

definition lerp :: "real \<Rightarrow> real \<Rightarrow> real \<Rightarrow> real" where
  "lerp a b t = (1 - t) * a + t * b"

definition clamp :: "real \<Rightarrow> real \<Rightarrow> real \<Rightarrow> real" where
  "clamp v lo hi = max lo (min hi v)"

text \<open>\<^verbatim>\<open>currentCoverTarget\<close>: a rock carries its id, a terrain depression has none.\<close>

record coverTarget =
  ct_x :: real
  ct_z :: real
  ct_id :: "obstacle_id option"
  ct_stopDist :: real

text \<open>
  \<^verbatim>\<open>agentState.current\<close>, field by field. The position of each wheel's suspension group
  (\<^verbatim>\<open>wheelRefs.current[i].position.y\<close>) is kept beside the wheel velocities; \<open>None\<close> is
  a wheel whose groups are not mounted.
\<close>

record agentState =
  yaw :: real
  steerAngle :: real
  speed :: real
  wheelRot :: real
  currentCoverTarget :: "coverTarget option"
  stuckTimer :: real
  recoveryTimer :: real
  scanTimer :: real
  isScanning :: bool
  shakePos :: vec3
  shakeRot :: vec3
  knockbackVel :: vec3
  isAirborne :: bool
  retractionT :: real
  dustLevel :: real
  wheelVelocities :: "real list"
  isUnderCover :: bool

text \<open>The component's other mutable cells: refs and the damage counter.\<close>

record rover =
  agent :: agentState
  roverPos :: vec3
  damageCount :: nat
  frameCount :: nat
  lastChunkPos :: "int \<times> int"
  obstaclesCache :: "obstacle list"
  userPanelOverride :: "bool option"
  wheelY :: "real option list"

section \<open>The hit notification (Rover.tsx, useImperativeHandle)\<close>

text \<open>
  \<open>rnd\<close> holds the three results of \<^verbatim>\<open>Math.random()\<close> that the unsafe branch draws for
  the shake rotation.
\<close>

definition hit :: "vec3 \<Rightarrow> real \<times> real \<times> real \<Rightarrow> rover \<Rightarrow> rover" where
  "hit impactVelocity rnd r =
     (let a = agent r;
          isSafe = (isUnderCover a \<and> retractionT a > 0.8)
      in if isSafe
         then r\<lparr>agent := a\<lparr>shakePos := addScalar (shakePos a) 0.2\<rparr>\<rparr>
         else
           (let (r1, r2, r3) = rnd;
                a = a\<lparr>knockbackVel := impactVelocity\<rparr>;
                a = a\<lparr>knockbackVel := (knockbackVel a)\<lparr>vy := 0\<rparr>\<rparr>;
                a = a\<lparr>shakePos := addScalar (shakePos a) 0.5\<rparr>;
                a = a\<lparr>shakeRot := multiplyScalar \<lparr>vx = r1, vy = r2, vz = r3\<rparr> 0.5\<rparr>
            in r\<lparr>agent := a, damageCount := min (damageCount r + 1) 20\<rparr>))"

section \<open>Suspension (Rover.tsx, the spring-damper integrator of one wheel)\<close>

definition WHEEL_POSITIONS :: "(real \<times> real \<times> real) list" where
  "WHEEL_POSITIONS =
     [(- 0.7, 0.2, - 0.5), (0.7, 0.2, - 0.5),
      (- 0.8, 0.2, 0.1), (0.8, 0.2, 0.1),
      (- 0.7, 0.2, 0.6), (0.7, 0.2, 0.6)]"

definition neutralY :: "real \<times> real \<times> real \<Rightarrow> real" where
  "neutralY pos = fst (snd pos) - 0.3"

definition maxTravel :: real where
  "maxTravel = 0.4"

text \<open>
  Lines 1257 to 1285 for one mounted wheel: from the current offset, the stored spring
  velocity and the target offset \<open>targetLocalY\<close> (the surface height under the wheel,
  brought into the rover's frame by three.js, plus 0.18), the new offset and velocity.
\<close>

definition wheelStep ::
  "real \<Rightarrow> real \<times> real \<times> real \<Rightarrow> real \<Rightarrow> real \<Rightarrow> real \<Rightarrow> real \<times> real" where
  "wheelStep dt pos currentY velocity targetLocalY =
     (let stiffness = 120.0;
          damping = 20.0;
          finalTargetY = targetLocalY;
          clampedTargetY =
            clamp finalTargetY (neutralY pos - maxTravel) (neutralY pos + maxTravel);
          displacement = currentY - clampedTargetY;
          acceleration = - stiffness * displacement - damping * velocity;
          newVelocity = velocity + acceleration * dt;
          newY = currentY + newVelocity * dt
      in if newY < neutralY pos - maxTravel then (neutralY pos - maxTravel, 0)
         else if newY > neutralY pos + maxTravel then (neutralY pos + maxTravel, 0)
         else (newY, newVelocity))"

text \<open>
  \<^verbatim>\<open>WHEEL_POSITIONS.forEach((pos, i) => ...)\<close>: the wheels in index order. A wheel that
  is not mounted returns early and keeps its stored velocity. \<open>targets i\<close> is the
  target offset of wheel \<open>i\<close> in this tick.
\<close>

fun wheelLoop ::
  "real \<Rightarrow> (nat \<Rightarrow> real) \<Rightarrow> nat list \<Rightarrow> real option list \<times> real list
     \<Rightarrow> real option list \<times> real list" where
  "wheelLoop dt targets [] st = st"
| "wheelLoop dt targets (i # rest) (ys, vels) =
     (case ys ! i of
        None \<Rightarrow> wheelLoop dt targets rest (ys, vels)
      | Some currentY \<Rightarrow>
          (let (newY, newVelocity) =
                 wheelStep dt (WHEEL_POSITIONS ! i) currentY (vels ! i) (targets i)
           in wheelLoop dt targets rest (ys[i := Some newY], vels[i := newVelocity])))"

text \<open>
  The suspension update of a tick, with \<^verbatim>\<open>dt = Math.min(delta, 0.05)\<close>. The rover has
  six wheel refs and six velocities; that is the shape \<open>wheelsOk\<close> states.
\<close>

definition suspensionUpdate :: "real \<Rightarrow> (nat \<Rightarrow> real) \<Rightarrow> rover \<Rightarrow> rover" where
  "suspensionUpdate delta targets r =
     (let dt = min delta 0.05;
          (ys, vels) =
            wheelLoop dt targets [0..<length WHEEL_POSITIONS]
              (wheelY r, wheelVelocities (agent r))
      in r\<lparr>agent := (agent r)\<lparr>wheelVelocities := vels\<rparr>, wheelY := ys\<rparr>)"

definition wheelsOk :: "rover \<Rightarrow> bool" where
  "wheelsOk r = (length (wheelY r) = 6 \<and> length (wheelVelocities (agent r)) = 6)"

text \<open>
  The velocity and the offset that lines 1273 and 1274 compute, before the travel limit
  is applied.
\<close>

definition integratedVelocity :: "real \<Rightarrow> real \<times> real \<times> real \<Rightarrow> real \<Rightarrow> real \<Rightarrow> real \<Rightarrow> real" where
  "integratedVelocity dt pos currentY velocity targetLocalY =
     velocity
       + (- 120.0 * (currentY - clamp targetLocalY (neutralY pos - maxTravel) (neutralY pos + maxTravel))
          - 20.0 * velocity) * dt"

definition integratedY :: "real \<Rightarrow> real \<times> real \<times> real \<Rightarrow> real \<Rightarrow> real \<Rightarrow> real \<Rightarrow> real" where
  "integratedY dt pos currentY velocity targetLocalY =
     currentY + integratedVelocity dt pos currentY velocity targetLocalY * dt"

section \<open>The state a rover is mounted with\<close>

definition zeroVec :: vec3 where
  "zeroVec = \<lparr>vx = 0, vy = 0, vz = 0\<rparr>"

definition initialAgent :: agentState where
  "initialAgent =
     \<lparr>yaw = 0, steerAngle = 0, speed = 2.0, wheelRot = 0,
      currentCoverTarget = None, stuckTimer = 0, recoveryTimer = 0,
      scanTimer = 0, isScanning = False,
      shakePos = zeroVec, shakeRot = zeroVec, knockbackVel = zeroVec, isAirborne = False,
      retractionT = 0, dustLevel = 0,
      wheelVelocities = [0, 0, 0, 0, 0, 0],
      isUnderCover = False\<rparr>"

definition initialRover :: rover where
  "initialRover =
     \<lparr>agent = initialAgent,
      roverPos = \<lparr>vx = 0, vy = 0, vz = 13.5\<rparr>,
      damageCount = 0, frameCount = 0,
      lastChunkPos = (- 999, - 999), obstaclesCache = [],
      userPanelOverride = None,
      wheelY = map (\<lambda>pos. Some (fst (snd pos) - 0.3)) WHEEL_POSITIONS\<rparr>"

text \<open>A rover whose wheels sit at the upper limit and still move upwards.\<close>

definition overshootRover :: rover where
  "overshootRover =
     initialRover\<lparr>agent := initialAgent\<lparr>wheelVelocities := [1, 1, 1, 1, 1, 1]\<rparr>,
                  wheelY := [Some 0.3, Some 0.3, Some 0.3, Some 0.3, Some 0.3, Some 0.3]\<rparr>"

section \<open>The surface height as the specification words it\<close>

text \<open>
  The three notions of the specification's sentence on the drivable surface: the
  horizontal distance from a point to an obstacle's centre, the obstacles that count
  (scale below the runnable threshold, distance below \<open>0.9 \<times> scale\<close>), and the height
  at the point of a hemisphere of radius \<open>0.9 \<times> scale\<close> whose centre lies at the
  obstacle's base terrain height minus \<open>0.4 \<times> scale\<close>.
\<close>

definition horizontalDistance :: "obstacle \<Rightarrow> real \<Rightarrow> real \<Rightarrow> real" where
  "horizontalDistance obs wx wz = sqrt ((wx - obs_x obs)\<^sup>2 + (wz - obs_z obs)\<^sup>2)"

definition drivenOver :: "obstacle \<Rightarrow> real \<Rightarrow> real \<Rightarrow> bool" where
  "drivenOver obs wx wz =
     (obs_scale obs < 2.5 \<and> horizontalDistance obs wx wz < 0.9 * obs_scale obs)"

definition hemisphereHeight :: "obstacle \<Rightarrow> real \<Rightarrow> real \<Rightarrow> real" where
  "hemisphereHeight obs wx wz =
     (getBaseTerrainHeight (obs_x obs) (obs_z obs) - 0.4 * obs_scale obs)
       + sqrt ((0.9 * obs_scale obs)\<^sup>2 - (horizontalDistance obs wx wz)\<^sup>2)"

text \<open>A small rock at the origin, and a rover sheltered with its panels retracted.\<close>

definition pebble :: obstacle where
  "pebble = \<lparr>obs_id = (0, 0, 0), obs_x = 0, obs_z = 0, obs_radius = 3.5, obs_scale = 2\<rparr>"

definition safeRover :: rover where
  "safeRover = initialRover\<lparr>agent := initialAgent\<lparr>isUnderCover := True, retractionT := 1\<rparr>\<rparr>"

section \<open>Names for the generator's draws and for what two consumers compare\<close>

text \<open>The pseudo-random number with index \<open>idx\<close> of the chunk \<open>(cx, cz)\<close>.\<close>

definition chunkRandom :: "int \<Rightarrow> int \<Rightarrow> real \<Rightarrow> real" where
  "chunkRandom cx cz idx =
     pseudoRandom (chunkSeed (of_int cx * CHUNK_SIZE) (of_int cz * CHUNK_SIZE)) idx"

text \<open>
  What the rover's obstacle list and the rock instances of the scene have in common:
  world position and scale.
\<close>

definition position :: "obstacle \<Rightarrow> real \<times> real \<times> real" where
  "position ob = (obs_x ob, obs_z ob, obs_scale ob)"

definition placed :: "placement \<Rightarrow> real \<times> real \<times> real" where
  "placed p = (worldX p, worldZ p, rockScale p)"

section \<open>One frame of the rover (Rover.tsx, useFrame)\<close>

text \<open>
  What a frame reads from outside the rover's own state: the frame time, the two
  environment signals, the keys held and the autopilot switch (both written by the
  keyboard handlers between frames), the results of the calls of \<^verbatim>\<open>Math.random()\<close> the
  frame may make, and for each wheel the target offset that three.js derives from the
  surface height under it.
\<close>

datatype phase = IDLE | INCOMING | IMPACT

record keys =
  key_w :: bool
  key_a :: bool
  key_s :: bool
  key_d :: bool

record frameInput =
  delta :: real
  stormActive :: bool
  meteorPhase :: phase
  keysPressed :: keys
  autoPilot :: bool
  randomShake :: "real \<times> real \<times> real"
  randomShakeRot :: "real \<times> real"
  randomSide :: real
  wheelTargets :: "nat \<Rightarrow> real"

text \<open>
  \<^verbatim>\<open>Infinity\<close> as the initial value of a running minimum is \<open>None\<close>; \<open>belowBest c best\<close>
  is \<^verbatim>\<open>c < best\<close> and \<open>bestAbove best c\<close> is \<^verbatim>\<open>best > c\<close>.
\<close>

definition belowBest :: "real \<Rightarrow> real option \<Rightarrow> bool" where
  "belowBest c best = (case best of None \<Rightarrow> True | Some b \<Rightarrow> c < b)"

definition bestAbove :: "real option \<Rightarrow> real \<Rightarrow> bool" where
  "bestAbove best c = (case best of None \<Rightarrow> True | Some b \<Rightarrow> b > c)"

subsection \<open>Lines 682 to 794: counters, dust, shake, knockback decay, panel retraction\<close>

definition frameStart :: "frameInput \<Rightarrow> rover \<Rightarrow> rover" where
  "frameStart inp r =
     (let a = agent r;
          a = (if stormActive inp
               then a\<lparr>dustLevel := min 1.0 (dustLevel a + delta inp * 0.3)\<rparr>
               else if retractionT a < 0.5 \<and> dustLevel a > 0
                    then a\<lparr>dustLevel := max 0 (dustLevel a - delta inp * 0.4)\<rparr>
                    else a);
          a = (if stormActive inp
               then (let vibrationScale = 0.02;
                         (s1, s2, s3) = randomShake inp;
                         (q1, q2) = randomShakeRot inp;
                         p = shakePos a;
                         q = shakeRot a
                     in a\<lparr>shakePos := \<lparr>vx = vx p + (s1 - 0.5) * vibrationScale,
                                        vy = vy p + (s2 - 0.5) * vibrationScale,
                                        vz = vz p + (s3 - 0.5) * vibrationScale\<rparr>,
                          shakeRot := q\<lparr>vx := vx q + (q1 - 0.5) * 0.005,
                                        vz := vz q + (q2 - 0.5) * 0.005\<rparr>\<rparr>)
               else a);
          a = a\<lparr>shakePos := multiplyScalar (shakePos a) 0.85,
                 shakeRot := multiplyScalar (shakeRot a) 0.85\<rparr>;
          a = a\<lparr>knockbackVel := \<lparr>vx = vx (knockbackVel a) * 0.85, vy = 0,
                                   vz = vz (knockbackVel a) * 0.85\<rparr>\<rparr>;
          autoRetract = (stormActive inp \<or> meteorPhase inp = IMPACT);
          shouldRetract =
            (if autoPilot inp then autoRetract
             else (case userPanelOverride r of Some b \<Rightarrow> b | None \<Rightarrow> False));
          override = (if autoPilot inp then None else userPanelOverride r);
          animSpeed = delta inp * 0.6;
          a = (if shouldRetract
               then a\<lparr>retractionT := min 1 (retractionT a + animSpeed)\<rparr>
               else a\<lparr>retractionT := max 0 (retractionT a - animSpeed)\<rparr>)
      in r\<lparr>agent := a, frameCount := frameCount r + 1, userPanelOverride := override\<rparr>)"

subsection \<open>Lines 830 to 842: the obstacle cache of the 3 by 3 chunk neighbourhood\<close>

definition neighbourhood :: "int \<Rightarrow> int \<Rightarrow> obstacle list" where
  "neighbourhood cx cz =
     concat (map (\<lambda>xx. concat (map (\<lambda>zz. getObstaclesInChunk (cx + xx) (cz + zz))
                                  [- 1, 0, 1]))
               [- 1, 0, 1])"

text \<open>\<^verbatim>\<open>Math.round(v)\<close> is \<open>\<lfloor>v + 0.5\<rfloor>\<close>.\<close>

definition refreshCache :: "rover \<Rightarrow> rover" where
  "refreshCache r =
     (let cx = \<lfloor>vx (roverPos r) / CHUNK_SIZE + 0.5\<rfloor>;
          cz = \<lfloor>vz (roverPos r) / CHUNK_SIZE + 0.5\<rfloor>
      in if cx \<noteq> fst (lastChunkPos r) \<or> cz \<noteq> snd (lastChunkPos r)
         then r\<lparr>obstaclesCache := neighbourhood cx cz, lastChunkPos := (cx, cz)\<rparr>
         else r)"

subsection \<open>Lines 844 to 967: what the rover wants in this frame\<close>

record locals =
  targetSteer :: real
  desiredHeading :: real
  headingWeight :: real
  targetSpeed :: real
  stopping :: bool
  performRaycastAvoidance :: bool

text \<open>The nearest rock of scale at least 8 (lines 899 to 909).\<close>

fun nearestRock ::
  "real \<Rightarrow> real \<Rightarrow> obstacle list \<Rightarrow> real option \<times> coverTarget option
     \<Rightarrow> real option \<times> coverTarget option" where
  "nearestRock rx rz [] st = st"
| "nearestRock rx rz (obs # rest) (bestDist, target) =
     (if obs_scale obs < 8.0 then nearestRock rx rz rest (bestDist, target)
      else
        (let dx = obs_x obs - rx;
             dz = obs_z obs - rz;
             dSq = dx * dx + dz * dz
         in if belowBest dSq bestDist
            then (let rockRadius = obs_scale obs * 1.5
                  in nearestRock rx rz rest
                       (Some dSq,
                        Some \<lparr>ct_x = obs_x obs, ct_z = obs_z obs, ct_id = Some (obs_id obs),
                              ct_stopDist = rockRadius + 1.5\<rparr>))
            else nearestRock rx rz rest (bestDist, target)))"

text \<open>
  The scan for a terrain depression (lines 911 to 930): the grid points \<open>snap + s\<close> for
  \<open>s = -50, -40, ..., 50\<close> in both directions, \<open>sx\<close> outermost.
\<close>

definition scanOffsets :: "real list" where
  "scanOffsets = map (\<lambda>k. of_int k * 10) [- 5 .. 5]"

definition scanPoint ::
  "real \<Rightarrow> real \<Rightarrow> real \<Rightarrow> real option \<times> coverTarget option \<Rightarrow> real
     \<Rightarrow> real option \<times> coverTarget option" where
  "scanPoint rx rz wx st wz =
     (let h = getBaseTerrainHeight wx wz
      in if h < - 3.0
         then (let dx = wx - rx;
                   dz = wz - rz;
                   dSq = dx * dx + dz * dz
               in if belowBest dSq (fst st)
                  then (Some dSq,
                        Some \<lparr>ct_x = wx, ct_z = wz, ct_id = None, ct_stopDist = 5.0\<rparr>)
                  else st)
         else st)"

definition scanTerrain ::
  "real \<Rightarrow> real \<Rightarrow> real option \<times> coverTarget option \<Rightarrow> real option \<times> coverTarget option" where
  "scanTerrain rx rz st =
     (let scanStep = 10;
          snapX = of_int \<lfloor>rx / scanStep\<rfloor> * scanStep;
          snapZ = of_int \<lfloor>rz / scanStep\<rfloor> * scanStep
      in foldl (\<lambda>st sx. foldl (\<lambda>st sz. scanPoint rx rz (snapX + sx) st (snapZ + sz))
                            st scanOffsets)
           st scanOffsets)"

text \<open>Lines 896 to 933: the cover target in force after the search.\<close>

definition findCover :: "rover \<Rightarrow> coverTarget option" where
  "findCover r =
     (case currentCoverTarget (agent r) of
        Some t \<Rightarrow> Some t
      | None \<Rightarrow>
          (let rx = vx (roverPos r);
               rz = vz (roverPos r);
               st = nearestRock rx rz (obstaclesCache r) (None, None);
               st = (if bestAbove (fst st) 900 then scanTerrain rx rz st else st)
           in snd st))"

text \<open>
  \<^verbatim>\<open>Math.atan2(y, x)\<close> on reals (signed zeros are outside the model), and the two loops
  that bring an angle difference back towards the interval from \<open>-\<pi>\<close> to \<open>\<pi>\<close>.
\<close>

definition atan2 :: "real \<Rightarrow> real \<Rightarrow> real" where
  "atan2 y x =
     (if x > 0 then arctan (y / x)
      else if x < 0 then (if y \<ge> 0 then arctan (y / x) + pi else arctan (y / x) - pi)
      else if y > 0 then pi / 2
      else if y < 0 then - (pi / 2)
      else 0)"

function wrapDown :: "real \<Rightarrow> real" where
  "wrapDown diff = (if diff > pi then wrapDown (diff - pi * 2) else diff)"
  by pat_completeness auto
termination
proof (relation "measure (\<lambda>d. nat \<lceil>(d - pi) / (2 * pi)\<rceil>)")
  show "wf (measure (\<lambda>d. nat \<lceil>(d - pi) / (2 * pi)\<rceil>))"
    by simp
next
  fix diff :: real
  assume d: "pi < diff"
  have "(diff - pi * 2 - pi) / (2 * pi) = (diff - pi) / (2 * pi) - 1"
    by (simp add: field_simps)
  moreover have "0 < (diff - pi) / (2 * pi)"
    using d by simp
  ultimately show "(diff - pi * 2, diff) \<in> measure (\<lambda>d. nat \<lceil>(d - pi) / (2 * pi)\<rceil>)"
    by simp
qed

function wrapUp :: "real \<Rightarrow> real" where
  "wrapUp diff = (if diff < - pi then wrapUp (diff + pi * 2) else diff)"
  by pat_completeness auto
termination
proof (relation "measure (\<lambda>d. nat \<lceil>(- pi - d) / (2 * pi)\<rceil>)")
  show "wf (measure (\<lambda>d. nat \<lceil>(- pi - d) / (2 * pi)\<rceil>))"
    by simp
next
  fix diff :: real
  assume d: "diff < - pi"
  have "(- pi - (diff + pi * 2)) / (2 * pi) = (- pi - diff) / (2 * pi) - 1"
    by (simp add: field_simps)
  moreover have "0 < (- pi - diff) / (2 * pi)"
    using d by simp
  ultimately show "(diff + pi * 2, diff) \<in> measure (\<lambda>d. nat \<lceil>(- pi - d) / (2 * pi)\<rceil>)"
    by simp
qed

declare wrapDown.simps [simp del] wrapUp.simps [simp del]

text \<open>The branch for an incoming threat (lines 891 to 954).\<close>

definition seekCover :: "rover \<Rightarrow> locals \<Rightarrow> locals \<times> rover" where
  "seekCover r l =
     (let l = l\<lparr>targetSpeed := 10.0, headingWeight := 40.0, performRaycastAvoidance := True\<rparr>;
          target = findCover r;
          r = (case target of
                 Some t \<Rightarrow> r\<lparr>agent := (agent r)\<lparr>currentCoverTarget := Some t\<rparr>\<rparr>
               | None \<Rightarrow> r)
      in case target of
           Some t \<Rightarrow>
             (let dx = ct_x t - vx (roverPos r);
                  dz = ct_z t - vz (roverPos r);
                  dist = sqrt (dx * dx + dz * dz)
              in if dist < ct_stopDist t
                 then (l\<lparr>stopping := True, targetSpeed := 0\<rparr>,
                       r\<lparr>agent := (agent r)\<lparr>speed := 0\<rparr>\<rparr>)
                 else (let worldAngle = atan2 (- dx) (- dz);
                           diff = worldAngle - yaw (agent r);
                           diff = wrapDown diff;
                           diff = wrapUp diff
                       in (l\<lparr>desiredHeading := diff\<rparr>, r)))
         | None \<Rightarrow> (l\<lparr>desiredHeading := 0, targetSpeed := 10.0\<rparr>, r))"

definition decide :: "frameInput \<Rightarrow> rover \<Rightarrow> locals \<times> rover" where
  "decide inp r =
     (let l = \<lparr>targetSteer = 0, desiredHeading = 0, headingWeight = 3.0, targetSpeed = 2.0,
               stopping = False, performRaycastAvoidance = False\<rparr>;
          r = (if meteorPhase inp = IDLE
               then r\<lparr>agent := (agent r)\<lparr>currentCoverTarget := None\<rparr>\<rparr>
               else r);
          input = keysPressed inp;
          isManualInput = (key_w input \<or> key_a input \<or> key_s input \<or> key_d input);
          isSystemsOffline = (retractionT (agent r) > 0.05)
      in if isManualInput
         then (if isSystemsOffline
               then (l\<lparr>targetSpeed := 0.0, targetSteer := 0.0,
                        performRaycastAvoidance := False\<rparr>, r)
               else (let throttle = (if key_w input then 1 else 0) - (if key_s input then 1 else 0);
                         steer = (if key_a input then 1 else 0) - (if key_d input then 1 else 0)
                     in (l\<lparr>targetSpeed := throttle * 5.0, targetSteer := steer * 0.8,
                            performRaycastAvoidance := False\<rparr>, r)))
         else if meteorPhase inp = IMPACT
              then (l\<lparr>targetSpeed := 0.0, stopping := True\<rparr>, r)
         else if stormActive inp \<or> isSystemsOffline
              then (l\<lparr>targetSpeed := 0.0, stopping := True\<rparr>, r)
         else if meteorPhase inp = INCOMING
              then seekCover r l
         else if autoPilot inp
              then (l\<lparr>headingWeight := 3.0, targetSpeed := 2.0,
                       performRaycastAvoidance := True\<rparr>, r)
              else (l\<lparr>targetSpeed := 0.0, stopping := True,
                       performRaycastAvoidance := False\<rparr>, r))"

subsection \<open>Lines 969 to 1043: the steering cost search\<close>

definition RAY_COUNT :: nat where
  "RAY_COUNT = 35"

definition FOV :: real where
  "FOV = pi * 1.3"

definition SAMPLES :: nat where
  "SAMPLES = 10"

text \<open>The candidate heading of ray \<open>i\<close> (lines 985 and 986).\<close>

definition angleOffsetOf :: "nat \<Rightarrow> real" where
  "angleOffsetOf i =
     (let t = of_nat i / (of_nat RAY_COUNT - 1)
      in lerp (- FOV / 2) (FOV / 2) t)"

text \<open>
  \<^verbatim>\<open>dynamicLookAhead = baseLookAhead + Math.abs(speed) * 3.0\<close>, with the speed the rover
  has when the search starts.
\<close>

definition dynamicLookAhead :: "rover \<Rightarrow> real" where
  "dynamicLookAhead r = 12.0 + \<bar>speed (agent r)\<bar> * 3.0"

text \<open>
  The loop over the obstacles at one sample point (lines 1005 to 1022). The obstacle
  that is the current cover target is skipped, and so is every runnable rock.
\<close>

fun obstaclePenalty ::
  "coverTarget option \<Rightarrow> real \<Rightarrow> real \<Rightarrow> real \<Rightarrow> obstacle list \<Rightarrow> real \<Rightarrow> real" where
  "obstaclePenalty currentTarget angleOffset px pz [] penalty = penalty"
| "obstaclePenalty currentTarget angleOffset px pz (obs # rest) penalty =
     (if (case currentTarget of None \<Rightarrow> False | Some t \<Rightarrow> ct_id t = Some (obs_id obs))
      then obstaclePenalty currentTarget angleOffset px pz rest penalty
      else if obs_scale obs < RUNNABLE_ROCK_SCALE
      then obstaclePenalty currentTarget angleOffset px pz rest penalty
      else
        (let dx = px - obs_x obs;
             dz = pz - obs_z obs;
             distSq = dx * dx + dz * dz;
             safeR = obs_radius obs * 1.2
         in if distSq < safeR * safeR
            then (let d = sqrt distSq;
                      proximity = safeR - d;
                      angleWeight = 1.0 + max 0 (cos angleOffset * 1.5)
                  in obstaclePenalty currentTarget angleOffset px pz rest
                       (penalty + proximity\<^sup>2 * 8000.0 * angleWeight))
            else obstaclePenalty currentTarget angleOffset px pz rest penalty))"

text \<open>
  One sample of a ray (lines 1000 to 1031): the state is the previous height and the
  penalty so far.
\<close>

definition sampleStep :: "rover \<Rightarrow> real \<Rightarrow> real \<Rightarrow> real \<Rightarrow> real \<times> real \<Rightarrow> nat \<Rightarrow> real \<times> real" where
  "sampleStep r angleOffset dirX dirZ st s =
     (let (prevH, penalty) = st;
          dist = (of_nat s / of_nat SAMPLES) * dynamicLookAhead r;
          px = vx (roverPos r) + dirX * dist;
          pz = vz (roverPos r) + dirZ * dist;
          penalty = obstaclePenalty (currentCoverTarget (agent r)) angleOffset px pz
                      (obstaclesCache r) penalty;
          h = getBaseTerrainHeight px pz;
          slope = (h - prevH) / (dynamicLookAhead r / of_nat SAMPLES);
          penalty = (if \<bar>slope\<bar> > 0.65 then penalty + \<bar>slope\<bar> * 1000.0 else penalty)
      in (h, penalty))"

definition rayPenalty :: "rover \<Rightarrow> nat \<Rightarrow> real" where
  "rayPenalty r i =
     (let angleOffset = angleOffsetOf i;
          rayYaw = yaw (agent r) + angleOffset;
          dirX = - sin rayYaw;
          dirZ = - cos rayYaw
      in snd (foldl (sampleStep r angleOffset dirX dirZ) (vy (roverPos r), 0)
                [1..<Suc SAMPLES]))"

definition rayCost :: "rover \<Rightarrow> locals \<Rightarrow> nat \<Rightarrow> real" where
  "rayCost r l i =
     (let angleOffset = angleOffsetOf i;
          cost = 0;
          cost = cost + \<bar>angleOffset - desiredHeading l\<bar> * headingWeight l;
          cost = cost + \<bar>angleOffset - steerAngle (agent r)\<bar> * 0.5;
          cost = cost + \<bar>angleOffset\<bar> * 0.2;
          cost = cost + rayPenalty r i
      in cost)"

record search =
  bestCost :: "real option"
  bestSteerOffset :: real
  allBlocked :: bool

text \<open>The end of the body of the loop over the rays (lines 1035 to 1042).\<close>

definition rayStep :: "rover \<Rightarrow> locals \<Rightarrow> search \<Rightarrow> nat \<Rightarrow> search" where
  "rayStep r l st i =
     (let penalty = rayPenalty r i;
          cost = rayCost r l i;
          st = (if penalty < 100 then st\<lparr>allBlocked := False\<rparr> else st)
      in if belowBest cost (bestCost st)
         then st\<lparr>bestCost := Some cost, bestSteerOffset := angleOffsetOf i\<rparr>
         else st)"

definition costSearch :: "rover \<Rightarrow> locals \<Rightarrow> search" where
  "costSearch r l =
     foldl (rayStep r l) \<lparr>bestCost = None, bestSteerOffset = 0, allBlocked = True\<rparr>
       [0..<RAY_COUNT]"

subsection \<open>Lines 1045 to 1075: stuck detection, recovery, braking\<close>

text \<open>Lines 1045 to 1053: the stuck timer runs up while the rover wants to move and cannot.\<close>

definition stuckUpdate :: "frameInput \<Rightarrow> search \<Rightarrow> locals \<Rightarrow> agentState \<Rightarrow> agentState" where
  "stuckUpdate inp st l a =
     (let velocity = speed a;
          isMoving = (\<bar>velocity\<bar> > 0.1);
          wantsToMove = (\<bar>targetSpeed l\<bar> > 0.1)
      in if wantsToMove \<and> (allBlocked st \<or> (\<not> isMoving \<and> recoveryTimer a \<le> 0))
         then a\<lparr>stuckTimer := stuckTimer a + delta inp * 3\<rparr>
         else a\<lparr>stuckTimer := max 0 (stuckTimer a - delta inp * 3)\<rparr>)"

text \<open>Lines 1055 to 1058: a recovery episode starts, on a side drawn at random.\<close>

definition recoveryStart :: "frameInput \<Rightarrow> agentState \<Rightarrow> agentState" where
  "recoveryStart inp a =
     (if stuckTimer a > 1.0 \<and> recoveryTimer a \<le> 0
      then a\<lparr>recoveryTimer := 2.0,
             steerAngle := (if randomSide inp > 0.5 then - 1.0 else 1.0)\<rparr>
      else a)"

text \<open>
  Lines 1060 to 1067: during recovery the rover reverses and steers as it steers now;
  otherwise it steers to the best offset, clamped.
\<close>

definition recoverySteer ::
  "frameInput \<Rightarrow> search \<Rightarrow> locals \<times> agentState \<Rightarrow> locals \<times> agentState" where
  "recoverySteer inp st la =
     (let (l, a) = la
      in if recoveryTimer a > 0
         then (l\<lparr>targetSpeed := - 2.0, targetSteer := steerAngle a\<rparr>,
               a\<lparr>recoveryTimer := recoveryTimer a - delta inp * 3, stuckTimer := 0\<rparr>)
         else (l\<lparr>targetSteer := clamp (bestSteerOffset st) (- 0.8) 0.8\<rparr>, a))"

text \<open>Lines 1069 to 1075: braking in turns and before costly headings.\<close>

definition turnBraking :: "search \<Rightarrow> locals \<Rightarrow> agentState \<Rightarrow> locals" where
  "turnBraking st l a =
     (if \<not> stopping l \<and> recoveryTimer a \<le> 0
      then (let turnBrake = max 0.3 (1.0 - \<bar>targetSteer l\<bar> * 1.0);
                l = l\<lparr>targetSpeed := targetSpeed l * turnBrake\<rparr>
            in if bestAbove (bestCost st) 2000 then l\<lparr>targetSpeed := targetSpeed l * 0.3\<rparr>
               else if bestAbove (bestCost st) 500 then l\<lparr>targetSpeed := targetSpeed l * 0.6\<rparr>
               else l)
      else l)"

definition afterSearch :: "frameInput \<Rightarrow> search \<Rightarrow> locals \<times> rover \<Rightarrow> locals \<times> rover" where
  "afterSearch inp st lr =
     (let (l, r) = lr;
          a = stuckUpdate inp st l (agent r);
          a = recoveryStart inp a;
          (l, a) = recoverySteer inp st (l, a);
          l = turnBraking st l a
      in (l, r\<lparr>agent := a\<rparr>))"

text \<open>The throttled block as a whole: it runs in every third frame at most.\<close>

definition raycastSteering :: "frameInput \<Rightarrow> locals \<times> rover \<Rightarrow> locals \<times> rover" where
  "raycastSteering inp lr =
     (let (l, r) = lr
      in if performRaycastAvoidance l \<and> frameCount r mod 3 = 0
         then afterSearch inp (costSearch r l) (l, r)
         else (l, r))"

subsection \<open>Lines 1078 to 1101 and 1148: smoothing, yaw, scan timer, wheel rotation\<close>

definition smoothing :: "frameInput \<Rightarrow> locals \<times> rover \<Rightarrow> rover" where
  "smoothing inp lr =
     (let (l, r) = lr;
          a = agent r;
          a = a\<lparr>steerAngle := lerp (steerAngle a) (targetSteer l) (delta inp * 10.0)\<rparr>;
          a = (if stopping l
               then a\<lparr>speed := lerp (speed a) 0 (delta inp * 2.0)\<rparr>
               else a\<lparr>speed := lerp (speed a) (targetSpeed l)
                                  (delta inp * (if key_w (keysPressed inp) \<or> key_s (keysPressed inp)
                                                then 3.0 else 2.0))\<rparr>);
          a = (if \<bar>steerAngle a\<bar> > 0.01
               then a\<lparr>yaw := yaw a + steerAngle a * speed a * delta inp * 0.6\<rparr>
               else a);
          a = (if \<not> stormActive inp \<and> meteorPhase inp = IDLE
               then (let a = a\<lparr>scanTimer := scanTimer a + delta inp\<rparr>
                     in if scanTimer a > 5.0
                        then (let a = a\<lparr>isScanning := True\<rparr>
                              in if scanTimer a > 7.0
                                 then a\<lparr>scanTimer := 0, isScanning := False\<rparr>
                                 else a)
                        else a)
               else a\<lparr>isScanning := False\<rparr>);
          a = a\<lparr>wheelRot := wheelRot a - (speed a * delta inp) / 0.18\<rparr>
      in r\<lparr>agent := a\<rparr>)"

subsection \<open>Lines 1150 to 1201: position update and collision resolution\<close>

definition roverRadius :: real where
  "roverRadius = 0.8"

text \<open>
  The loop over the cached obstacles; the state is the proposed position and the two
  flags \<^verbatim>\<open>hitSomething\<close> and \<^verbatim>\<open>underCover\<close>.
\<close>

fun collisionLoop ::
  "obstacle list \<Rightarrow> real \<times> real \<times> bool \<times> bool \<Rightarrow> real \<times> real \<times> bool \<times> bool" where
  "collisionLoop [] st = st"
| "collisionLoop (obs # rest) (nextX, nextZ, hitSomething, underCover) =
     (let dx = nextX - obs_x obs;
          dz = nextZ - obs_z obs;
          distSq = dx * dx + dz * dz;
          underCover =
            (if obs_scale obs > 8.0
             then (let coverRadiusSq = (obs_scale obs * 1.1) * (obs_scale obs * 1.1)
                   in if distSq < coverRadiusSq then True else underCover)
             else underCover)
      in if obs_scale obs < RUNNABLE_ROCK_SCALE
         then collisionLoop rest (nextX, nextZ, hitSomething, underCover)
         else
           (let minDist = obs_scale obs * 0.85 + roverRadius
            in if distSq < minDist * minDist
               then (let dist = sqrt distSq
                     in if dist > 0.001
                        then (let nx = dx / dist;
                                  nz = dz / dist
                              in collisionLoop rest
                                   (obs_x obs + nx * minDist, obs_z obs + nz * minDist,
                                    True, underCover))
                        else collisionLoop rest (nextX, nextZ, hitSomething, underCover))
               else collisionLoop rest (nextX, nextZ, hitSomething, underCover)))"

definition positionUpdate :: "frameInput \<Rightarrow> rover \<Rightarrow> rover" where
  "positionUpdate inp r =
     (let a = agent r;
          nextX = vx (roverPos r) - sin (yaw a) * speed a * delta inp;
          nextZ = vz (roverPos r) - cos (yaw a) * speed a * delta inp;
          nextX = nextX + vx (knockbackVel a) * delta inp;
          nextZ = nextZ + vz (knockbackVel a) * delta inp;
          (nextX, nextZ, hitSomething, underCover) =
            collisionLoop (obstaclesCache r) (nextX, nextZ, False, False);
          a = a\<lparr>isUnderCover := underCover\<rparr>;
          a = (if hitSomething then a\<lparr>speed := speed a * 0.95\<rparr> else a);
          pos = (roverPos r)\<lparr>vx := nextX, vz := nextZ\<rparr>;
          h = getSurfaceHeight (obstaclesCache r) nextX nextZ;
          targetY = h + 0.55;
          pos = pos\<lparr>vy := lerp (vy pos) targetY 0.2\<rparr>
      in r\<lparr>agent := a, roverPos := pos\<rparr>)"

subsection \<open>The frame\<close>

text \<open>
  The parts in the order of the source. Not modelled, as they do not feed back into the
  state above: materials, lights, mast, panels and head, the orientation quaternion,
  the camera, and the callbacks to the parent.
\<close>

definition tick :: "frameInput \<Rightarrow> rover \<Rightarrow> rover" where
  "tick inp r =
     (let r = frameStart inp r;
          r = refreshCache r;
          lr = decide inp r;
          lr = raycastSteering inp lr;
          r = smoothing inp lr;
          r = positionUpdate inp r
      in suspensionUpdate (delta inp) (wheelTargets inp) r)"

text \<open>A run of frames, one input per frame.\<close>

fun run :: "frameInput list \<Rightarrow> rover \<Rightarrow> rover" where
  "run [] r = r"
| "run (inp # inps) r = run inps (tick inp r)"

section \<open>Auxiliary notions for the statements\<close>

text \<open>The state of the cost search after the first \<open>n\<close> rays.\<close>

definition searchUpTo :: "rover \<Rightarrow> locals \<Rightarrow> nat \<Rightarrow> search" where
  "searchUpTo r l n =
     foldl (rayStep r l) \<lparr>bestCost = None, bestSteerOffset = 0, allBlocked = True\<rparr> [0..<n]"

text \<open>The locals of an autonomous wander frame (lines 957 to 960).\<close>

definition wander :: locals where
  "wander = \<lparr>targetSteer = 0, desiredHeading = 0, headingWeight = 3.0, targetSpeed = 2.0,
             stopping = False, performRaycastAvoidance = True\<rparr>"

text \<open>
  For the collision pass: the distance an obstacle keeps the rover at, the obstacles
  that are not runnable, the distance between two centres, two obstacles whose
  exclusion discs do not overlap, an obstacle whose disc lies inside another's, and a
  list of obstacles any two of which are in one of these positions.
\<close>

definition minDistOf :: "obstacle \<Rightarrow> real" where
  "minDistOf obs = obs_scale obs * 0.85 + roverRadius"

definition solid :: "obstacle \<Rightarrow> bool" where
  "solid obs = (obs_scale obs \<ge> RUNNABLE_ROCK_SCALE)"

definition centreDistance :: "obstacle \<Rightarrow> obstacle \<Rightarrow> real" where
  "centreDistance a b = sqrt ((obs_x a - obs_x b)\<^sup>2 + (obs_z a - obs_z b)\<^sup>2)"





text \<open>
  What the body of the collision loop does to the proposed position for one obstacle,
  the whole pass on positions, and the position the pass starts from (lines 1153 to
  1157).
\<close>

definition pushOut :: "obstacle \<Rightarrow> real \<times> real \<Rightarrow> real \<times> real" where
  "pushOut obs p =
     (let d = horizontalDistance obs (fst p) (snd p)
      in if solid obs \<and> d < minDistOf obs \<and> 0.001 < d
         then (obs_x obs + (fst p - obs_x obs) / d * minDistOf obs,
               obs_z obs + (snd p - obs_z obs) / d * minDistOf obs)
         else p)"

abbreviation resolve :: "obstacle list \<Rightarrow> real \<times> real \<Rightarrow> real \<times> real" where
  "resolve cache p \<equiv> foldl (\<lambda>p obs. pushOut obs p) p cache"









definition calm :: frameInput where
  "calm = \<lparr>delta = 1 / 60, stormActive = False, meteorPhase = IDLE,
            keysPressed = \<lparr>key_w = False, key_a = False, key_s = False, key_d = False\<rparr>,
            autoPilot = True, randomShake = (0, 0, 0), randomShakeRot = (0, 0),
            randomSide = 0.3, wheelTargets = (\<lambda>i. 0)\<rparr>"

text \<open>
  For the behaviour over frames: no key held; a frame in which the rover is under manual
  throttle with its systems online (exactly one of w and s held, panels retracted by at
  most 0.05 after the frame's panel update); a run of storm frames without such
  throttle, with frame times between \<open>d\<close> and a third of a second; a frame of
  autonomous wandering.
\<close>

definition noKeys :: keys where
  "noKeys = \<lparr>key_w = False, key_a = False, key_s = False, key_d = False\<rparr>"

definition drives :: "frameInput \<Rightarrow> rover \<Rightarrow> bool" where
  "drives inp r =
     (key_w (keysPressed inp) \<noteq> key_s (keysPressed inp)
      \<and> \<not> retractionT (agent (frameStart inp r)) > 0.05)"

fun stormRun :: "real \<Rightarrow> frameInput list \<Rightarrow> rover \<Rightarrow> bool" where
  "stormRun d [] r = True"
| "stormRun d (inp # inps) r =
     (stormActive inp \<and> \<not> drives inp r \<and> d \<le> delta inp \<and> delta inp \<le> 1 / 3
      \<and> stormRun d inps (tick inp r))"

definition wandering :: "frameInput \<Rightarrow> bool" where
  "wandering inp =
     (\<not> stormActive inp \<and> meteorPhase inp = IDLE \<and> autoPilot inp \<and> keysPressed inp = noKeys
      \<and> 0 \<le> delta inp)"

text \<open>
  A storm frame with the autopilot on and no key held; a storm frame with the autopilot
  off and w held; a rover at rest, one raycast frame short of being declared stuck.
\<close>

definition stormy :: frameInput where
  "stormy = calm\<lparr>stormActive := True\<rparr>"

definition stormDrive :: frameInput where
  "stormDrive = calm\<lparr>stormActive := True, autoPilot := False,
                      keysPressed := noKeys\<lparr>key_w := True\<rparr>\<rparr>"

definition stuckRover :: rover where
  "stuckRover = initialRover\<lparr>agent := initialAgent\<lparr>speed := 0, stuckTimer := 0.99\<rparr>,
                            frameCount := 2\<rparr>"

section \<open>Facts about the generator\<close>

lemma pseudoRandom_ge0: "0 \<le> pseudoRandom sb idx"
  unfolding pseudoRandom_def Let_def by linarith

lemma pseudoRandom_lt1: "pseudoRandom sb idx < 1"
  unfolding pseudoRandom_def Let_def by linarith

lemma rockLoop_eq:
  "rockLoop cx cz lay i acc = acc @ map (rockAt cx cz lay) [i..<count lay]"
proof (induction cx cz lay i acc rule: rockLoop.induct)
  case (1 cx cz lay i obstacles)
  show ?case
  proof (cases "i < count lay")
    case True
    with "1" show ?thesis
      by (subst rockLoop.simps) (simp add: upt_conv_Cons)
  next
    case False
    then show ?thesis
      by (subst rockLoop.simps) simp
  qed
qed

lemma getObstaclesInChunk_eq:
  "getObstaclesInChunk cx cz =
     concat (map (\<lambda>lay. map (rockAt cx cz lay) [0..<count lay]) ROCK_LAYERS)"
  by (simp add: getObstaclesInChunk_def ROCK_LAYERS_def rockLoop_eq)

lemma placeLoop_eq:
  "placeLoop c mn mx cs ox oz i acc = acc @ map (placeAt mn mx cs ox oz) [i..<c]"
proof (induction c mn mx cs ox oz i acc rule: placeLoop.induct)
  case (1 c mn mx cs ox oz i acc)
  show ?case
  proof (cases "i < c")
    case True
    with "1" show ?thesis
      by (subst placeLoop.simps) (simp add: upt_conv_Cons)
  next
    case False
    then show ?thesis
      by (subst placeLoop.simps) simp
  qed
qed

lemma scatteredRocks_eq:
  "scatteredRocks c mn mx cs ox oz = map (placeAt mn mx cs ox oz) [0..<c]"
  by (simp add: scatteredRocks_def placeLoop_eq)

lemma set_getObstaclesInChunk:
  "set (getObstaclesInChunk cx cz) =
     {rockAt cx cz lay i | lay i. lay \<in> set ROCK_LAYERS \<and> i < count lay}"
  unfolding getObstaclesInChunk_eq by auto blast

text \<open>The scale drawn in a layer lies between the layer's bounds.\<close>

lemma rockAt_scale:
  "obs_scale (rockAt cx cz lay i) =
     minScale lay
       + pseudoRandom (chunkSeed (of_int cx * CHUNK_SIZE) (of_int cz * CHUNK_SIZE))
           (of_nat i * 3 + 2) * (maxScale lay - minScale lay)"
  by (simp add: rockAt_def Let_def)

lemma rockAt_scale_ge:
  "minScale lay \<le> maxScale lay \<Longrightarrow> minScale lay \<le> obs_scale (rockAt cx cz lay i)"
  by (simp add: rockAt_scale pseudoRandom_ge0)

lemma rockAt_scale_lt:
  assumes "minScale lay < maxScale lay"
  shows "obs_scale (rockAt cx cz lay i) < maxScale lay"
proof -
  let ?r = "pseudoRandom (chunkSeed (of_int cx * CHUNK_SIZE) (of_int cz * CHUNK_SIZE))
              (of_nat i * 3 + 2)"
  have "?r * (maxScale lay - minScale lay) < 1 * (maxScale lay - minScale lay)"
    using assms pseudoRandom_lt1 [of _ "of_nat i * 3 + 2"] by (intro mult_strict_right_mono) auto
  then show ?thesis
    by (simp add: rockAt_scale)
qed

lemma rockAt_z: "obs_z (rockAt cx cz lay i) = baseZ cx cz i"
  by (simp add: rockAt_def baseZ_def Let_def)

lemma rockAt_x:
  "obs_x (rockAt cx cz lay i) =
     (if obs_scale (rockAt cx cz lay i) > 8 \<and> \<bar>baseX cx cz i\<bar> < 25
      then (if baseX cx cz i \<ge> 0 then 1 else - 1)
             * (25 + pseudoRandom (chunkSeed (of_int cx * CHUNK_SIZE) (of_int cz * CHUNK_SIZE))
                       (of_nat i * 3) * 10)
      else baseX cx cz i)"
  by (simp add: rockAt_def baseX_def Let_def)

lemma generated_scale_ge:
  assumes "ob \<in> set (getObstaclesInChunk cx cz)"
  shows "1.5 \<le> obs_scale ob"
proof -
  from assms obtain lay i where l: "lay \<in> set ROCK_LAYERS" and ob: "ob = rockAt cx cz lay i"
    unfolding set_getObstaclesInChunk by blast
  from l have "minScale lay \<le> maxScale lay" "1.5 \<le> minScale lay"
    by (auto simp: ROCK_LAYERS_def)
  then show ?thesis
    using rockAt_scale_ge [of lay cx cz i] ob by simp
qed

section \<open>Suspension travel\<close>

lemma neutralY_wheels: "i < 6 \<Longrightarrow> neutralY (WHEEL_POSITIONS ! i) = - 0.1"
  by (auto simp: WHEEL_POSITIONS_def neutralY_def nth_Cons' less_Suc_eq numeral_eq_Suc)

lemma wheelStep_cases:
  "wheelStep dt pos c v t =
     (if integratedY dt pos c v t < neutralY pos - maxTravel then (neutralY pos - maxTravel, 0)
      else if integratedY dt pos c v t > neutralY pos + maxTravel then (neutralY pos + maxTravel, 0)
      else (integratedY dt pos c v t, integratedVelocity dt pos c v t))"
  by (simp add: wheelStep_def integratedY_def integratedVelocity_def Let_def)

lemma wheelStep_bounds:
  "neutralY pos - maxTravel \<le> fst (wheelStep dt pos c v t)"
  "fst (wheelStep dt pos c v t) \<le> neutralY pos + maxTravel"
  by (simp_all add: wheelStep_cases maxTravel_def)

lemma wheelLoop_length:
  "wheelLoop dt targets js (ys, vels) = (ys', vels') \<Longrightarrow>
     length ys' = length ys \<and> length vels' = length vels"
  by (induction js arbitrary: ys vels) (auto split: option.splits prod.splits)

lemma wheelLoop_nth:
  assumes "distinct js" "\<forall>j\<in>set js. j < length ys \<and> j < length vels"
    and "i < length ys" "i < length vels"
  shows "fst (wheelLoop dt targets js (ys, vels)) ! i =
           (if i \<in> set js
            then map_option (\<lambda>c. fst (wheelStep dt (WHEEL_POSITIONS ! i) c (vels ! i) (targets i))) (ys ! i)
            else ys ! i) \<and>
         snd (wheelLoop dt targets js (ys, vels)) ! i =
           (if i \<in> set js
            then (case ys ! i of None \<Rightarrow> vels ! i
                  | Some c \<Rightarrow> snd (wheelStep dt (WHEEL_POSITIONS ! i) c (vels ! i) (targets i)))
            else vels ! i)"
  using assms
proof (induction js arbitrary: ys vels)
  case Nil
  then show ?case by simp
next
  case (Cons j js)
  show ?case
  proof (cases "ys ! j")
    case None
    then show ?thesis
      using Cons.IH [of ys vels] Cons.prems by auto
  next
    case (Some c)
    obtain ny nv where st: "wheelStep dt (WHEEL_POSITIONS ! j) c (vels ! j) (targets j) = (ny, nv)"
      by (cases "wheelStep dt (WHEEL_POSITIONS ! j) c (vels ! j) (targets j)")
    have "fst (wheelLoop dt targets js (ys[j := Some ny], vels[j := nv])) ! i =
           (if i \<in> set js
            then map_option (\<lambda>c. fst (wheelStep dt (WHEEL_POSITIONS ! i) c ((vels[j := nv]) ! i) (targets i))) ((ys[j := Some ny]) ! i)
            else (ys[j := Some ny]) ! i) \<and>
         snd (wheelLoop dt targets js (ys[j := Some ny], vels[j := nv])) ! i =
           (if i \<in> set js
            then (case (ys[j := Some ny]) ! i of None \<Rightarrow> (vels[j := nv]) ! i
                  | Some c \<Rightarrow> snd (wheelStep dt (WHEEL_POSITIONS ! i) c ((vels[j := nv]) ! i) (targets i)))
            else (vels[j := nv]) ! i)"
      using Cons.prems by (intro Cons.IH) auto
    then show ?thesis
      using Some st Cons.prems by (auto simp: nth_list_update split: option.splits)
  qed
qed


lemma suspensionUpdate_nth:
  assumes "wheelsOk r" "i < 6"
  shows "wheelY (suspensionUpdate frameTime targets r) ! i =
           map_option (\<lambda>c. fst (wheelStep (min frameTime 0.05) (WHEEL_POSITIONS ! i) c
                                   (wheelVelocities (agent r) ! i) (targets i))) (wheelY r ! i)"
    and "wheelVelocities (agent (suspensionUpdate frameTime targets r)) ! i =
           (case wheelY r ! i of None \<Rightarrow> wheelVelocities (agent r) ! i
            | Some c \<Rightarrow> snd (wheelStep (min frameTime 0.05) (WHEEL_POSITIONS ! i) c
                               (wheelVelocities (agent r) ! i) (targets i)))"
proof -
  have len: "length WHEEL_POSITIONS = 6"
    by (simp add: WHEEL_POSITIONS_def)
  have *: "distinct [0..<6]" "\<forall>j\<in>set [0..<6]. j < length (wheelY r) \<and> j < length (wheelVelocities (agent r))"
    "i < length (wheelY r)" "i < length (wheelVelocities (agent r))" "i \<in> set [0..<6]"
    using assms by (auto simp: wheelsOk_def)
  note nth = wheelLoop_nth [OF *(1-4), of "min frameTime 0.05" targets]
  show "wheelY (suspensionUpdate frameTime targets r) ! i =
           map_option (\<lambda>c. fst (wheelStep (min frameTime 0.05) (WHEEL_POSITIONS ! i) c
                                   (wheelVelocities (agent r) ! i) (targets i))) (wheelY r ! i)"
    using nth *(5) by (simp add: suspensionUpdate_def len Let_def case_prod_unfold)
  show "wheelVelocities (agent (suspensionUpdate frameTime targets r)) ! i =
           (case wheelY r ! i of None \<Rightarrow> wheelVelocities (agent r) ! i
            | Some c \<Rightarrow> snd (wheelStep (min frameTime 0.05) (WHEEL_POSITIONS ! i) c
                               (wheelVelocities (agent r) ! i) (targets i)))"
    using nth *(5) by (simp add: suspensionUpdate_def len Let_def case_prod_unfold)
qed

text \<open>
  Claim C3. For each of the six wheels, the offset after a tick's suspension update lies
  between the neutral offset minus the maximal travel and the neutral offset plus the
  maximal travel (from \<open>-0.5\<close> to \<open>0.3\<close>), whatever the target offset the terrain
  gives; when the integrated offset leaves that range, the offset is set to the bound
  it crossed and the spring velocity to zero, and otherwise the integrated values are
  stored.
\<close>

theorem suspension_bound:
  "wheelsOk r \<Longrightarrow> i < 6 \<Longrightarrow> wheelY r ! i = Some currentY \<Longrightarrow>
     (\<exists>newY. wheelY (suspensionUpdate frameTime targets r) ! i = Some newY
        \<and> neutralY (WHEEL_POSITIONS ! i) - maxTravel \<le> newY
        \<and> newY \<le> neutralY (WHEEL_POSITIONS ! i) + maxTravel
        \<and> - 0.5 \<le> newY \<and> newY \<le> 0.3
        \<and> (let lo = neutralY (WHEEL_POSITIONS ! i) - maxTravel;
                hi = neutralY (WHEEL_POSITIONS ! i) + maxTravel;
                v = wheelVelocities (agent r) ! i;
                iy = integratedY (min frameTime 0.05) (WHEEL_POSITIONS ! i) currentY v (targets i);
                iv = integratedVelocity (min frameTime 0.05) (WHEEL_POSITIONS ! i) currentY v (targets i);
                newVelocity = wheelVelocities (agent (suspensionUpdate frameTime targets r)) ! i
            in (iy < lo \<longrightarrow> newY = lo \<and> newVelocity = 0)
             \<and> (iy > hi \<longrightarrow> newY = hi \<and> newVelocity = 0)
             \<and> (lo \<le> iy \<and> iy \<le> hi \<longrightarrow> newY = iy \<and> newVelocity = iv)))"
proof -
  assume ok: "wheelsOk r" and i: "i < 6" and y: "wheelY r ! i = Some currentY"
  let ?st = "wheelStep (min frameTime 0.05) (WHEEL_POSITIONS ! i) currentY
               (wheelVelocities (agent r) ! i) (targets i)"
  have ny: "wheelY (suspensionUpdate frameTime targets r) ! i = Some (fst ?st)"
    using suspensionUpdate_nth(1) [OF ok i] y by simp
  have nv: "wheelVelocities (agent (suspensionUpdate frameTime targets r)) ! i = snd ?st"
    using suspensionUpdate_nth(2) [OF ok i] y by simp
  have b: "neutralY (WHEEL_POSITIONS ! i) - maxTravel \<le> fst ?st"
    "fst ?st \<le> neutralY (WHEEL_POSITIONS ! i) + maxTravel"
    by (rule wheelStep_bounds)+
  have n: "neutralY (WHEEL_POSITIONS ! i) = - 0.1"
    by (rule neutralY_wheels [OF i])
  have c: "- 0.5 \<le> fst ?st" "fst ?st \<le> 0.3"
    using b by (simp_all add: n maxTravel_def)
  show ?thesis
    unfolding ny nv using b c
    by (simp add: Let_def wheelStep_cases maxTravel_def)
qed

theorem suspension_bound_witness:
  "wheelsOk overshootRover \<and> (0::nat) < 6 \<and> wheelY overshootRover ! 0 = Some 0.3
   \<and> integratedY (min (1/100) 0.05) (WHEEL_POSITIONS ! 0) 0.3 1 1 = 0.308
   \<and> wheelY (suspensionUpdate (1/100) (\<lambda>i. 1) overshootRover) ! 0 = Some 0.3
   \<and> wheelVelocities (agent (suspensionUpdate (1/100) (\<lambda>i. 1) overshootRover)) ! 0 = 0"
proof -
  have ok: "wheelsOk overshootRover"
    by (simp add: wheelsOk_def overshootRover_def initialRover_def initialAgent_def)
  have y: "wheelY overshootRover ! 0 = Some 0.3"
    by (simp add: overshootRover_def)
  have v: "wheelVelocities (agent overshootRover) ! 0 = 1"
    by (simp add: overshootRover_def)
  have n: "neutralY (WHEEL_POSITIONS ! 0) = - 0.1"
    by (simp add: WHEEL_POSITIONS_def neutralY_def)
  have iy: "integratedY (min (1/100) 0.05) (WHEEL_POSITIONS ! 0) 0.3 1 1 = 0.308"
    by (simp add: integratedY_def integratedVelocity_def n maxTravel_def clamp_def)
  from suspension_bound [OF ok _ y, of "1/100" "\<lambda>i. 1"]
  have "wheelY (suspensionUpdate (1/100) (\<lambda>i. 1) overshootRover) ! 0 = Some 0.3
     \<and> wheelVelocities (agent (suspensionUpdate (1/100) (\<lambda>i. 1) overshootRover)) ! 0 = 0"
    unfolding v Let_def iy n maxTravel_def by auto
  with ok y iy show ?thesis by simp
qed

section \<open>Surface height\<close>

lemma drivenOver_iff:
  assumes "0 \<le> obs_scale obs"
  shows "drivenOver obs wx wz \<longleftrightarrow>
           \<not> obs_scale obs \<ge> RUNNABLE_ROCK_SCALE \<and>
           (wx - obs_x obs) * (wx - obs_x obs) + (wz - obs_z obs) * (wz - obs_z obs)
             < obs_scale obs * 0.9 * (obs_scale obs * 0.9)"
proof -
  let ?d = "(wx - obs_x obs)\<^sup>2 + (wz - obs_z obs)\<^sup>2"
  have "sqrt ?d < 0.9 * obs_scale obs \<longleftrightarrow> ?d < (0.9 * obs_scale obs)\<^sup>2"
  proof -
    have "sqrt ((0.9 * obs_scale obs)\<^sup>2) = 0.9 * obs_scale obs"
      using assms by simp
    then show ?thesis
      using real_sqrt_less_iff [of ?d "(0.9 * obs_scale obs)\<^sup>2"] by simp
  qed
  then show ?thesis
    by (simp add: drivenOver_def horizontalDistance_def RUNNABLE_ROCK_SCALE_def power2_eq_square
        not_le mult.commute)
qed


lemma surfaceLoop_step:
  assumes "0 \<le> obs_scale obs"
  shows "surfaceLoop (obs # rest) wx wz h =
           surfaceLoop rest wx wz
             (if drivenOver obs wx wz then max h (hemisphereHeight obs wx wz) else h)"
proof (cases "drivenOver obs wx wz")
  case True
  then have c: "\<not> obs_scale obs \<ge> RUNNABLE_ROCK_SCALE"
    "(wx - obs_x obs) * (wx - obs_x obs) + (wz - obs_z obs) * (wz - obs_z obs)
       < obs_scale obs * 0.9 * (obs_scale obs * 0.9)"
    using drivenOver_iff [OF assms] by blast+
  have h: "hemisphereHeight obs wx wz =
             getBaseTerrainHeight (obs_x obs) (obs_z obs) - obs_scale obs * 0.4
               + sqrt (max 0 (obs_scale obs * 0.9 * (obs_scale obs * 0.9)
                   - ((wx - obs_x obs) * (wx - obs_x obs) + (wz - obs_z obs) * (wz - obs_z obs))))"
    using c(2) by (simp add: hemisphereHeight_def horizontalDistance_def power2_eq_square
        max_def mult.commute)
  show ?thesis
    using True c unfolding h by (simp add: Let_def max_def)
next
  case False
  then show ?thesis
    using drivenOver_iff [OF assms, of wx wz] by (auto simp: Let_def)
qed

lemma Max_insert_max:
  assumes "finite S"
  shows "Max (insert (max h a) S) = Max (insert h (insert a S))"
proof (cases "S = {}")
  case True
  then show ?thesis by simp
next
  case False
  then show ?thesis
    using assms by (simp add: max.assoc)
qed

lemma surfaceLoop_Max:
  assumes "\<forall>obs\<in>set cache. 0 \<le> obs_scale obs"
  shows "surfaceLoop cache wx wz h =
           Max (insert h ((\<lambda>obs. hemisphereHeight obs wx wz) ` {obs \<in> set cache. drivenOver obs wx wz}))"
  using assms
proof (induction cache arbitrary: h)
  case Nil
  then show ?case by simp
next
  case (Cons obs rest)
  let ?f = "\<lambda>obs. hemisphereHeight obs wx wz"
  define S where "S = ?f ` {o' \<in> set rest. drivenOver o' wx wz}"
  have fin: "finite S" by (simp add: S_def)
  have step: "surfaceLoop (obs # rest) wx wz h =
           surfaceLoop rest wx wz (if drivenOver obs wx wz then max h (?f obs) else h)"
    using Cons.prems by (intro surfaceLoop_step) simp
  have ih: "\<And>h'. surfaceLoop rest wx wz h' = Max (insert h' S)"
    unfolding S_def using Cons.IH Cons.prems by simp
  show ?case
  proof (cases "drivenOver obs wx wz")
    case True
    then have set_eq: "?f ` {o' \<in> set (obs # rest). drivenOver o' wx wz} = insert (?f obs) S"
      unfolding S_def by auto
    show ?thesis
      unfolding step ih set_eq using True Max_insert_max [OF fin] by simp
  next
    case False
    then have set_eq: "?f ` {o' \<in> set (obs # rest). drivenOver o' wx wz} = S"
      unfolding S_def by auto
    show ?thesis
      unfolding step ih set_eq using False by simp
  qed
qed

lemma surfaceLoop_ge: "h \<le> surfaceLoop cache wx wz h"
proof (induction cache arbitrary: h)
  case Nil
  then show ?case by simp
next
  case (Cons obs rest)
  show ?case
    using Cons.IH [of h]
      Cons.IH [of "getBaseTerrainHeight (obs_x obs) (obs_z obs) - obs_scale obs * 0.4
         + sqrt (max 0 (obs_scale obs * 0.9 * (obs_scale obs * 0.9)
             - ((wx - obs_x obs) * (wx - obs_x obs) + (wz - obs_z obs) * (wz - obs_z obs))))"]
    by (auto simp: Let_def)
qed

lemma neighbourhood_scale_ge:
  assumes "obs \<in> set (neighbourhood cx cz)"
  shows "1.5 \<le> obs_scale obs"
  using assms generated_scale_ge by (auto simp: neighbourhood_def)

text \<open>
  Claim C9. At every point the surface height is at least the base terrain height. It
  is the maximum of the base height-field value and, over the cached obstacles below
  the runnable scale whose horizontal distance to the point is below \<open>0.9 \<times> scale\<close>,
  the hemisphere heights: for every cache without a negative scale, and so for every
  cache the rover builds from the chunks around it, whose scales start at 1.5.
\<close>

theorem surface_height_max:
  "getBaseTerrainHeight wx wz \<le> getSurfaceHeight cache wx wz
   \<and> ((\<forall>obs\<in>set cache. 0 \<le> obs_scale obs) \<longrightarrow>
        getSurfaceHeight cache wx wz =
          Max (insert (getBaseTerrainHeight wx wz)
                 ((\<lambda>obs. hemisphereHeight obs wx wz)
                    ` {obs \<in> set cache. drivenOver obs wx wz})))
   \<and> getSurfaceHeight (neighbourhood cx cz) wx wz =
         Max (insert (getBaseTerrainHeight wx wz)
                ((\<lambda>obs. hemisphereHeight obs wx wz)
                   ` {obs \<in> set (neighbourhood cx cz). drivenOver obs wx wz}))"
proof -
  have ge: "getBaseTerrainHeight wx wz \<le> getSurfaceHeight cache wx wz"
    unfolding getSurfaceHeight_def by (rule surfaceLoop_ge)
  have eq: "getSurfaceHeight c wx wz =
       Max (insert (getBaseTerrainHeight wx wz)
              ((\<lambda>obs. hemisphereHeight obs wx wz) ` {obs \<in> set c. drivenOver obs wx wz}))"
    if "\<forall>obs\<in>set c. 0 \<le> obs_scale obs" for c
    unfolding getSurfaceHeight_def using that by (rule surfaceLoop_Max)
  have "\<forall>obs\<in>set (neighbourhood cx cz). 0 \<le> obs_scale obs"
    using neighbourhood_scale_ge [of _ cx cz] by fastforce
  then have nb: "getSurfaceHeight (neighbourhood cx cz) wx wz =
         Max (insert (getBaseTerrainHeight wx wz)
                ((\<lambda>obs. hemisphereHeight obs wx wz)
                   ` {obs \<in> set (neighbourhood cx cz). drivenOver obs wx wz}))"
    by (rule eq)
  show ?thesis
    using ge eq [of cache] nb by blast
qed

theorem surface_height_max_witness:
  "0 \<le> obs_scale pebble
   \<and> drivenOver pebble 0 0
   \<and> getSurfaceHeight [pebble] 0 0 = getBaseTerrainHeight 0 0 + 1"
proof -
  have a: "\<forall>obs\<in>set [pebble]. 0 \<le> obs_scale obs"
    by (simp add: pebble_def)
  have d: "drivenOver pebble 0 0"
    by (simp add: drivenOver_def horizontalDistance_def pebble_def)
  have h: "hemisphereHeight pebble 0 0 = getBaseTerrainHeight 0 0 + 1"
  proof -
    have "sqrt ((0.9 * 2)\<^sup>2 - 0) = (1.8 :: real)"
      by (simp add: real_sqrt_abs)
    then show ?thesis
      by (simp add: hemisphereHeight_def horizontalDistance_def pebble_def)
  qed
  have s: "{obs \<in> set [pebble]. drivenOver obs 0 0} = {pebble}"
    using d by auto
  from surface_height_max [of 0 0 "[pebble]"] a
  have "getSurfaceHeight [pebble] 0 0 =
          Max (insert (getBaseTerrainHeight 0 0)
                 ((\<lambda>obs. hemisphereHeight obs 0 0) ` {obs \<in> set [pebble]. drivenOver obs 0 0}))"
    by blast
  then have "getSurfaceHeight [pebble] 0 0 = getBaseTerrainHeight 0 0 + 1"
    unfolding s by (simp add: h)
  with a d show ?thesis by simp
qed

section \<open>The hit notification\<close>

text \<open>
  Claim C8. When the rover is under cover with its panels retracted beyond 0.8, a hit
  changes nothing but the shake offset (0.2 is added to each component): knockback
  velocity and damage count stay. Otherwise the knockback velocity takes the horizontal
  components of the impact velocity with a zero vertical component, and the damage
  count goes up by one, capped at 20.
\<close>

theorem hit_effect:
  "(isUnderCover (agent r) \<and> retractionT (agent r) > 0.8 \<longrightarrow>
      hit impactVelocity rnd r
        = r\<lparr>agent := (agent r)\<lparr>shakePos := addScalar (shakePos (agent r)) 0.2\<rparr>\<rparr>
      \<and> knockbackVel (agent (hit impactVelocity rnd r)) = knockbackVel (agent r)
      \<and> damageCount (hit impactVelocity rnd r) = damageCount r)
   \<and> (\<not> (isUnderCover (agent r) \<and> retractionT (agent r) > 0.8) \<longrightarrow>
      vx (knockbackVel (agent (hit impactVelocity rnd r))) = vx impactVelocity
      \<and> vy (knockbackVel (agent (hit impactVelocity rnd r))) = 0
      \<and> vz (knockbackVel (agent (hit impactVelocity rnd r))) = vz impactVelocity
      \<and> damageCount (hit impactVelocity rnd r) = min (damageCount r + 1) 20)"
  by (cases rnd) (simp add: hit_def Let_def)

theorem hit_effect_witness:
  "isUnderCover (agent safeRover) \<and> retractionT (agent safeRover) > 0.8
   \<and> knockbackVel (agent (hit \<lparr>vx = 3, vy = - 9, vz = 4\<rparr> (0, 0, 0) safeRover)) = zeroVec
   \<and> damageCount (hit \<lparr>vx = 3, vy = - 9, vz = 4\<rparr> (0, 0, 0) safeRover) = 0
   \<and> \<not> (isUnderCover (agent initialRover) \<and> retractionT (agent initialRover) > 0.8)
   \<and> knockbackVel (agent (hit \<lparr>vx = 3, vy = - 9, vz = 4\<rparr> (0, 0, 0) initialRover))
       = \<lparr>vx = 3, vy = 0, vz = 4\<rparr>
   \<and> damageCount (hit \<lparr>vx = 3, vy = - 9, vz = 4\<rparr> (0, 0, 0) initialRover) = 1
   \<and> damageCount (hit \<lparr>vx = 3, vy = - 9, vz = 4\<rparr> (0, 0, 0) (initialRover\<lparr>damageCount := 20\<rparr>)) = 20"
proof -
  have s: "isUnderCover (agent safeRover) \<and> retractionT (agent safeRover) > 0.8"
    by (simp add: safeRover_def)
  have u: "\<not> (isUnderCover (agent initialRover) \<and> retractionT (agent initialRover) > 0.8)"
    by (simp add: initialRover_def initialAgent_def)
  have u': "\<not> (isUnderCover (agent (initialRover\<lparr>damageCount := 20\<rparr>))
              \<and> retractionT (agent (initialRover\<lparr>damageCount := 20\<rparr>)) > 0.8)"
    by (simp add: initialRover_def initialAgent_def)
  have k: "knockbackVel (agent safeRover) = zeroVec" "damageCount safeRover = 0"
    "damageCount initialRover = 0"
    by (simp_all add: safeRover_def initialRover_def initialAgent_def)
  show ?thesis
    using hit_effect [of safeRover "\<lparr>vx = 3, vy = - 9, vz = 4\<rparr>" "(0, 0, 0)"]
      hit_effect [of initialRover "\<lparr>vx = 3, vy = - 9, vz = 4\<rparr>" "(0, 0, 0)"]
      hit_effect [of "initialRover\<lparr>damageCount := 20\<rparr>" "\<lparr>vx = 3, vy = - 9, vz = 4\<rparr>" "(0, 0, 0)"]
      s u u' k
    by (simp add: vec3.equality)
qed

section \<open>Corridor exclusion\<close>


lemma rockAt_x': 
  "obs_x (rockAt cx cz lay i) =
     (if obs_scale (rockAt cx cz lay i) > 8 \<and> \<bar>baseX cx cz i\<bar> < 25
      then (if baseX cx cz i \<ge> 0 then 1 else - 1) * (25 + chunkRandom cx cz (of_nat i * 3) * 10)
      else baseX cx cz i)"
  unfolding chunkRandom_def by (rule rockAt_x)










lemma massive_scale: "9 \<le> obs_scale (rockAt cx cz (ROCK_LAYERS ! 1) i)"
  using rockAt_scale_ge [of "ROCK_LAYERS ! 1" cx cz i] by (simp add: ROCK_LAYERS_def)



section \<open>Tiers of one chunk share their draws\<close>

lemma getObstaclesInChunk_list:
  "getObstaclesInChunk cx cz =
     rockAt cx cz (ROCK_LAYERS ! 0) 0
     # map (rockAt cx cz (ROCK_LAYERS ! 1)) [0..<3]
     @ map (rockAt cx cz (ROCK_LAYERS ! 2)) [0..<25]"
  by (simp add: getObstaclesInChunk_eq ROCK_LAYERS_def)

lemma getObstaclesInChunk_nth:
  "getObstaclesInChunk cx cz ! 0 = rockAt cx cz (ROCK_LAYERS ! 0) 0"
  "getObstaclesInChunk cx cz ! 1 = rockAt cx cz (ROCK_LAYERS ! 1) 0"
  "getObstaclesInChunk cx cz ! 4 = rockAt cx cz (ROCK_LAYERS ! 2) 0"
  "length (getObstaclesInChunk cx cz) = 29"
  by (simp_all add: getObstaclesInChunk_list nth_append upt_conv_Cons nth_Cons')

lemma gigantic_scale: "22 \<le> obs_scale (rockAt cx cz (ROCK_LAYERS ! 0) i)"
  using rockAt_scale_ge [of "ROCK_LAYERS ! 0" cx cz i] by (simp add: ROCK_LAYERS_def)

lemma large_scale: "obs_scale (rockAt cx cz (ROCK_LAYERS ! 2) i) < 3.5"
  using rockAt_scale_lt [of "ROCK_LAYERS ! 2" cx cz i] by (simp add: ROCK_LAYERS_def)

text \<open>
  Claim C10. The index of the pseudo-random sequence restarts at 0 in every tier. So in
  every chunk the gigantic obstacle (the first of the list) and the first massive
  obstacle (the second) have the same centre, both being subject to the corridor rule
  with the same draw; the first large obstacle (the fifth) has the same z and the
  drawn x, the corridor rule never applying to its scale. All three carry the same id.
\<close>

theorem tiers_share_positions:
  "(let obstacles = getObstaclesInChunk cx cz;
        gigantic = obstacles ! 0;
        massive = obstacles ! 1;
        large = obstacles ! 4
    in length obstacles = 29
       \<and> gigantic = rockAt cx cz (ROCK_LAYERS ! 0) 0
       \<and> massive = rockAt cx cz (ROCK_LAYERS ! 1) 0
       \<and> large = rockAt cx cz (ROCK_LAYERS ! 2) 0
       \<and> obs_x gigantic = obs_x massive \<and> obs_z gigantic = obs_z massive
       \<and> obs_x gigantic =
           (if \<bar>baseX cx cz 0\<bar> < 25
            then (if baseX cx cz 0 \<ge> 0 then 1 else - 1) * (25 + chunkRandom cx cz 0 * 10)
            else baseX cx cz 0)
       \<and> obs_x large = baseX cx cz 0
       \<and> obs_z large = obs_z gigantic \<and> obs_z large = baseZ cx cz 0
       \<and> obs_id gigantic = (cx, cz, 0) \<and> obs_id massive = (cx, cz, 0)
       \<and> obs_id large = (cx, cz, 0))"
proof -
  have g: "obs_scale (rockAt cx cz (ROCK_LAYERS ! 0) 0) > 8"
    using gigantic_scale [of cx cz 0] by simp
  have m: "obs_scale (rockAt cx cz (ROCK_LAYERS ! 1) 0) > 8"
    using massive_scale [of cx cz 0] by simp
  have l: "\<not> obs_scale (rockAt cx cz (ROCK_LAYERS ! 2) 0) > 8"
    using large_scale [of cx cz 0] by simp
  have ids: "obs_id (rockAt cx cz lay 0) = (cx, cz, 0)" for lay
    by (simp add: rockAt_def Let_def)
  show ?thesis
    unfolding Let_def getObstaclesInChunk_nth
    using g m l by (simp add: rockAt_x' rockAt_z ids)
qed

theorem tiers_share_positions_witness:
  "obs_x (getObstaclesInChunk 0 0 ! 0) = - 40
   \<and> obs_x (getObstaclesInChunk 0 0 ! 1) = - 40
   \<and> obs_x (getObstaclesInChunk 0 0 ! 4) = - 40
   \<and> obs_z (getObstaclesInChunk 0 0 ! 0) = obs_z (getObstaclesInChunk 0 0 ! 1)
   \<and> obs_z (getObstaclesInChunk 0 0 ! 4) = obs_z (getObstaclesInChunk 0 0 ! 0)"
proof -
  have b: "baseX 0 0 0 = - 40"
    by (simp add: baseX_def pseudoRandom_def chunkSeed_def CHUNK_SIZE_def)
  show ?thesis
    using tiers_share_positions [of 0 0] unfolding Let_def b by argo
qed

section \<open>The rover and the scene place the same rocks\<close>

lemma placeAt_rockAt:
  "worldX (placeAt (minScale lay) (maxScale lay) CHUNK_SIZE
             (of_int cx * CHUNK_SIZE) (of_int cz * CHUNK_SIZE) i) = obs_x (rockAt cx cz lay i)"
  "worldZ (placeAt (minScale lay) (maxScale lay) CHUNK_SIZE
             (of_int cx * CHUNK_SIZE) (of_int cz * CHUNK_SIZE) i) = obs_z (rockAt cx cz lay i)"
  "rockScale (placeAt (minScale lay) (maxScale lay) CHUNK_SIZE
             (of_int cx * CHUNK_SIZE) (of_int cz * CHUNK_SIZE) i) = obs_scale (rockAt cx cz lay i)"
  by (simp_all add: placeAt_def rockAt_def chunkSeed_def Let_def)

lemma placeAt_local:
  "localX (placeAt mn mx cs ox oz i) + ox = worldX (placeAt mn mx cs ox oz i)"
  "localZ (placeAt mn mx cs ox oz i) + oz = worldZ (placeAt mn mx cs ox oz i)"
  by (simp_all add: placeAt_def Let_def)

lemma sceneRocks_tier:
  assumes "k < 3"
  shows "map placed (sceneRocks cx cz ! k) =
           map position (map (rockAt cx cz (ROCK_LAYERS ! k)) [0..<count (ROCK_LAYERS ! k)])"
proof -
  have "k = 0 \<or> k = 1 \<or> k = 2"
    using assms by auto
  moreover have "map placed (sceneRocks cx cz ! 0) =
           map position (map (rockAt cx cz (ROCK_LAYERS ! 0)) [0..<count (ROCK_LAYERS ! 0)])"
    using placeAt_rockAt [of "ROCK_LAYERS ! 0" cx cz]
    by (simp add: sceneRocks_def sceneRockProps_def scatteredRocks_eq placed_def position_def
        ROCK_LAYERS_def)
  moreover have "map placed (sceneRocks cx cz ! 1) =
           map position (map (rockAt cx cz (ROCK_LAYERS ! 1)) [0..<count (ROCK_LAYERS ! 1)])"
    using placeAt_rockAt [of "ROCK_LAYERS ! 1" cx cz]
    by (simp add: sceneRocks_def sceneRockProps_def scatteredRocks_eq placed_def position_def
        ROCK_LAYERS_def)
  moreover have "map placed (sceneRocks cx cz ! 2) =
           map position (map (rockAt cx cz (ROCK_LAYERS ! 2)) [0..<count (ROCK_LAYERS ! 2)])"
    using placeAt_rockAt [of "ROCK_LAYERS ! 2" cx cz]
    by (simp add: sceneRocks_def sceneRockProps_def scatteredRocks_eq placed_def position_def
        ROCK_LAYERS_def)
  ultimately show ?thesis
    by blast
qed

text \<open>
  Claim C7. The obstacle list of a chunk is a function of the chunk coordinates alone
  (no state and no random source enters it), for negative coordinates too, so two calls
  give the same list. Tier by tier (1 of scale 22 to 32, 3 of scale 9 to 15, 25 of scale
  1.5 to 3.5) the rover's obstacles and the scene's rock instances of the same chunk have
  the same world position and scale, corridor displacement included; an instance's local
  position plus the chunk offset is its world position, and an obstacle's steering
  radius is its scale plus 1.5.
\<close>

theorem generator_matches_scene:
  "getObstaclesInChunk cx cz =
     concat (map (\<lambda>lay. map (rockAt cx cz lay) [0..<count lay]) ROCK_LAYERS)
   \<and> map position (getObstaclesInChunk cx cz) = map placed (concat (take 3 (sceneRocks cx cz)))
   \<and> map placed (sceneRocks cx cz ! 0)
       = map position (map (rockAt cx cz (ROCK_LAYERS ! 0)) [0..<1])
   \<and> map placed (sceneRocks cx cz ! 1)
       = map position (map (rockAt cx cz (ROCK_LAYERS ! 1)) [0..<3])
   \<and> map placed (sceneRocks cx cz ! 2)
       = map position (map (rockAt cx cz (ROCK_LAYERS ! 2)) [0..<25])
   \<and> list_all (\<lambda>p. localX p + of_int cx * CHUNK_SIZE = worldX p
                    \<and> localZ p + of_int cz * CHUNK_SIZE = worldZ p)
        (concat (sceneRocks cx cz))
   \<and> list_all (\<lambda>ob. obs_radius ob = obs_scale ob + 1.5) (getObstaclesInChunk cx cz)"
proof -
  have t: "map placed (sceneRocks cx cz ! k) =
           map position (map (rockAt cx cz (ROCK_LAYERS ! k)) [0..<count (ROCK_LAYERS ! k)])"
    if "k < 3" for k
    using that by (rule sceneRocks_tier)
  have c: "count (ROCK_LAYERS ! 0) = 1" "count (ROCK_LAYERS ! 1) = 3" "count (ROCK_LAYERS ! 2) = 25"
    by (simp_all add: ROCK_LAYERS_def)
  have tk: "take 3 (sceneRocks cx cz) = [sceneRocks cx cz ! 0, sceneRocks cx cz ! 1, sceneRocks cx cz ! 2]"
    by (simp add: sceneRocks_def sceneRockProps_def)
  have all: "map position (getObstaclesInChunk cx cz) = map placed (concat (take 3 (sceneRocks cx cz)))"
    unfolding tk using t [of 0] t [of 1] t [of 2]
    by (simp add: getObstaclesInChunk_eq ROCK_LAYERS_def)
  have loc: "list_all (\<lambda>p. localX p + of_int cx * CHUNK_SIZE = worldX p
                    \<and> localZ p + of_int cz * CHUNK_SIZE = worldZ p)
        (concat (sceneRocks cx cz))"
    by (auto simp: sceneRocks_def sceneRockProps_def scatteredRocks_eq list_all_iff placeAt_local)
  have rad: "list_all (\<lambda>ob. obs_radius ob = obs_scale ob + 1.5) (getObstaclesInChunk cx cz)"
    by (simp add: getObstaclesInChunk_eq list_all_iff rockAt_def Let_def)
  show ?thesis
    using all t [of 0] t [of 1] t [of 2] loc rad unfolding c
    by (simp add: getObstaclesInChunk_eq)
qed


theorem generator_matches_scene_witness:
  "map position (getObstaclesInChunk (- 1) 2) = map placed (concat (take 3 (sceneRocks (- 1) 2)))"
  using generator_matches_scene [of "- 1" 2] by blast

section \<open>Steering optimality\<close>

lemma searchUpTo_0:
  "searchUpTo r l 0 = \<lparr>bestCost = None, bestSteerOffset = 0, allBlocked = True\<rparr>"
  by (simp add: searchUpTo_def)

lemma searchUpTo_Suc: "searchUpTo r l (Suc n) = rayStep r l (searchUpTo r l n) n"
  by (simp add: searchUpTo_def)

lemma costSearch_searchUpTo: "costSearch r l = searchUpTo r l RAY_COUNT"
  by (simp add: costSearch_def searchUpTo_def)

lemma searchUpTo_blocked:
  "allBlocked (searchUpTo r l n) \<longleftrightarrow> (\<forall>j<n. \<not> rayPenalty r j < 100)"
  by (induction n) (auto simp: searchUpTo_0 searchUpTo_Suc rayStep_def Let_def less_Suc_eq)

lemma searchUpTo_best:
  "0 < n \<Longrightarrow>
     \<exists>i<n. bestCost (searchUpTo r l n) = Some (rayCost r l i)
          \<and> bestSteerOffset (searchUpTo r l n) = angleOffsetOf i
          \<and> (\<forall>j<n. rayCost r l i \<le> rayCost r l j)
          \<and> (\<forall>j<i. rayCost r l i < rayCost r l j)"
proof (induction n)
  case 0
  then show ?case by simp
next
  case (Suc n)
  show ?case
  proof (cases "n = 0")
    case True
    then show ?thesis
      by (simp add: searchUpTo_Suc searchUpTo_0 rayStep_def Let_def belowBest_def)
  next
    case False
    then obtain i where i: "i < n"
      and b: "bestCost (searchUpTo r l n) = Some (rayCost r l i)"
      and o: "bestSteerOffset (searchUpTo r l n) = angleOffsetOf i"
      and m: "\<forall>j<n. rayCost r l i \<le> rayCost r l j"
      and f: "\<forall>j<i. rayCost r l i < rayCost r l j"
      using Suc.IH by auto
    show ?thesis
    proof (cases "rayCost r l n < rayCost r l i")
      case True
      then have "bestCost (searchUpTo r l (Suc n)) = Some (rayCost r l n)"
        "bestSteerOffset (searchUpTo r l (Suc n)) = angleOffsetOf n"
        using b by (simp_all add: searchUpTo_Suc rayStep_def Let_def belowBest_def)
      moreover have "\<forall>j<Suc n. rayCost r l n \<le> rayCost r l j"
        using True m by (auto simp: less_Suc_eq)
      moreover have "\<forall>j<n. rayCost r l n < rayCost r l j"
        using True m by (meson less_le_trans)
      ultimately show ?thesis
        by (intro exI [of _ n]) simp
    next
      case False
      then have "bestCost (searchUpTo r l (Suc n)) = Some (rayCost r l i)"
        "bestSteerOffset (searchUpTo r l (Suc n)) = angleOffsetOf i"
        using b o by (simp_all add: searchUpTo_Suc rayStep_def Let_def belowBest_def)
      moreover have "\<forall>j<Suc n. rayCost r l i \<le> rayCost r l j"
        using False m by (auto simp: less_Suc_eq)
      ultimately show ?thesis
        using i f by (intro exI [of _ i]) simp
    qed
  qed
qed

text \<open>
  Claim C4. The cost search ends with the offset of one of the 35 candidate headings,
  whose cost is the recorded best cost and is less than or equal to the cost of every
  candidate of that search; it is the first candidate of that cost. This is the offset
  before it is clamped to the maximal steering angle.
\<close>

theorem steering_optimality:
  "\<exists>i<RAY_COUNT.
      bestCost (costSearch r l) = Some (rayCost r l i)
      \<and> bestSteerOffset (costSearch r l) = angleOffsetOf i
      \<and> (\<forall>j<RAY_COUNT. rayCost r l i \<le> rayCost r l j)
      \<and> (\<forall>j<i. rayCost r l i < rayCost r l j)"
  unfolding costSearch_searchUpTo by (rule searchUpTo_best) (simp add: RAY_COUNT_def)

theorem steering_optimality_witness:
  "(17::nat) < RAY_COUNT
   \<and> (\<exists>c. bestCost (costSearch initialRover wander) = Some c
           \<and> c \<le> rayCost initialRover wander 17 \<and> c \<le> rayCost initialRover wander 0
           \<and> c \<le> rayCost initialRover wander 34)"
proof -
  have n: "(17::nat) < RAY_COUNT" "(0::nat) < RAY_COUNT" "(34::nat) < RAY_COUNT"
    by (simp_all add: RAY_COUNT_def)
  from steering_optimality [of initialRover wander] n show ?thesis
    by auto
qed

section \<open>Collision resolution\<close>

lemma solid_minDist_pos: "solid obs \<Longrightarrow> 0 < minDistOf obs"
  by (simp add: solid_def minDistOf_def RUNNABLE_ROCK_SCALE_def roverRadius_def)




lemma pushOut_on_circle:
  assumes "solid obs" "horizontalDistance obs (fst p) (snd p) < minDistOf obs"
    "0.001 < horizontalDistance obs (fst p) (snd p)"
  shows "horizontalDistance obs (fst (pushOut obs p)) (snd (pushOut obs p)) = minDistOf obs"
proof -
  define d where "d = horizontalDistance obs (fst p) (snd p)"
  define dx where "dx = fst p - obs_x obs"
  define dz where "dz = snd p - obs_z obs"
  define m where "m = minDistOf obs"
  have d: "0 < d" and m: "0 < m"
    using assms solid_minDist_pos [of obs] by (simp_all add: d_def m_def)
  have dd: "d\<^sup>2 = dx\<^sup>2 + dz\<^sup>2"
    by (simp add: d_def horizontalDistance_def dx_def dz_def)
  have "(dx / d * m)\<^sup>2 + (dz / d * m)\<^sup>2 = (dx\<^sup>2 + dz\<^sup>2) / d\<^sup>2 * m\<^sup>2"
    by (simp add: power_mult_distrib power_divide add_divide_distrib distrib_right)
  also have "\<dots> = d\<^sup>2 / d\<^sup>2 * m\<^sup>2"
    by (simp only: dd)
  also have "\<dots> = m\<^sup>2"
    using d by simp
  finally have r: "sqrt ((dx / d * m)\<^sup>2 + (dz / d * m)\<^sup>2) = m"
    using m by simp
  have po: "pushOut obs p = (obs_x obs + dx / d * m, obs_z obs + dz / d * m)"
    using assms by (simp add: pushOut_def Let_def d_def dx_def dz_def m_def)
  have "horizontalDistance obs (obs_x obs + dx / d * m) (obs_z obs + dz / d * m)
          = sqrt ((dx / d * m)\<^sup>2 + (dz / d * m)\<^sup>2)"
    by (simp add: horizontalDistance_def)
  then show ?thesis
    unfolding po using r by (simp add: m_def)
qed

lemma pushOut_outside:
  assumes "solid obs \<longrightarrow> minDistOf obs \<le> horizontalDistance obs (fst p) (snd p)"
  shows "pushOut obs p = p"
  using assms by (auto simp: pushOut_def Let_def)




lemma resolve_unchanged:
  assumes "\<forall>obs\<in>set cache. solid obs \<longrightarrow> minDistOf obs \<le> horizontalDistance obs (fst p) (snd p)"
  shows "resolve cache p = p"
  using assms by (induction cache) (simp_all add: pushOut_outside)

lemma resolve_on_some_circle:
  "resolve cache p = p
   \<or> (\<exists>q\<in>set cache. solid q
         \<and> horizontalDistance q (fst (resolve cache p)) (snd (resolve cache p)) = minDistOf q)"
proof (induction cache arbitrary: p)
  case Nil
  then show ?case by simp
next
  case (Cons obs rest)
  show ?case
  proof (cases "pushOut obs p = p")
    case True
    then show ?thesis
      using Cons.IH [of p] by auto
  next
    case False
    then have c: "solid obs" "horizontalDistance obs (fst p) (snd p) < minDistOf obs"
      "0.001 < horizontalDistance obs (fst p) (snd p)"
      by (auto simp: pushOut_def Let_def split: if_splits)
    have on: "horizontalDistance obs (fst (pushOut obs p)) (snd (pushOut obs p)) = minDistOf obs"
      by (rule pushOut_on_circle [OF c])
    show ?thesis
      using Cons.IH [of "pushOut obs p"] on c(1) by auto
  qed
qed

lemma centreDistance_sym: "centreDistance a b = centreDistance b a"
  by (simp add: centreDistance_def power2_commute)














section \<open>The frame, stage by stage\<close>

lemma tick_unfold:
  "tick inp r =
     suspensionUpdate (delta inp) (wheelTargets inp)
       (positionUpdate inp (smoothing inp (raycastSteering inp
          (decide inp (refreshCache (frameStart inp r))))))"
  by (simp add: tick_def Let_def)

lemma frameStart_fields:
  "speed (agent (frameStart inp r)) = speed (agent r)"
  "steerAngle (agent (frameStart inp r)) = steerAngle (agent r)"
  "yaw (agent (frameStart inp r)) = yaw (agent r)"
  "stuckTimer (agent (frameStart inp r)) = stuckTimer (agent r)"
  "recoveryTimer (agent (frameStart inp r)) = recoveryTimer (agent r)"
  "currentCoverTarget (agent (frameStart inp r)) = currentCoverTarget (agent r)"
  "frameCount (frameStart inp r) = frameCount r + 1"
  "roverPos (frameStart inp r) = roverPos r"
  "userPanelOverride (frameStart inp r) = (if autoPilot inp then None else userPanelOverride r)"
  by (simp_all add: frameStart_def Let_def split: prod.splits)

lemma frameStart_retraction:
  "retractionT (agent (frameStart inp r)) =
     (if (if autoPilot inp then stormActive inp \<or> meteorPhase inp = IMPACT
          else (case userPanelOverride r of Some b \<Rightarrow> b | None \<Rightarrow> False))
      then min 1 (retractionT (agent r) + delta inp * 0.6)
      else max 0 (retractionT (agent r) - delta inp * 0.6))"
  by (simp add: frameStart_def Let_def split: prod.splits)

lemma refreshCache_fields:
  "agent (refreshCache r) = agent r"
  "frameCount (refreshCache r) = frameCount r"
  "roverPos (refreshCache r) = roverPos r"
  "userPanelOverride (refreshCache r) = userPanelOverride r"
  by (simp_all add: refreshCache_def Let_def)

lemma suspensionUpdate_fields:
  "speed (agent (suspensionUpdate d t r)) = speed (agent r)"
  "steerAngle (agent (suspensionUpdate d t r)) = steerAngle (agent r)"
  "yaw (agent (suspensionUpdate d t r)) = yaw (agent r)"
  "stuckTimer (agent (suspensionUpdate d t r)) = stuckTimer (agent r)"
  "recoveryTimer (agent (suspensionUpdate d t r)) = recoveryTimer (agent r)"
  "retractionT (agent (suspensionUpdate d t r)) = retractionT (agent r)"
  "frameCount (suspensionUpdate d t r) = frameCount r"
  "userPanelOverride (suspensionUpdate d t r) = userPanelOverride r"
  by (simp_all add: suspensionUpdate_def Let_def case_prod_unfold)

lemma positionUpdate_fields:
  "steerAngle (agent (positionUpdate inp r)) = steerAngle (agent r)"
  "yaw (agent (positionUpdate inp r)) = yaw (agent r)"
  "stuckTimer (agent (positionUpdate inp r)) = stuckTimer (agent r)"
  "recoveryTimer (agent (positionUpdate inp r)) = recoveryTimer (agent r)"
  "retractionT (agent (positionUpdate inp r)) = retractionT (agent r)"
  "frameCount (positionUpdate inp r) = frameCount r"
  "userPanelOverride (positionUpdate inp r) = userPanelOverride r"
  by (simp_all add: positionUpdate_def Let_def case_prod_unfold)

lemma positionUpdate_speed:
  "speed (agent (positionUpdate inp r)) = speed (agent r)
   \<or> speed (agent (positionUpdate inp r)) = speed (agent r) * 0.95"
  by (simp add: positionUpdate_def Let_def case_prod_unfold)

lemma smoothing_fields:
  "steerAngle (agent (smoothing inp (l, r))) =
     lerp (steerAngle (agent r)) (targetSteer l) (delta inp * 10.0)"
  "speed (agent (smoothing inp (l, r))) =
     (if stopping l then lerp (speed (agent r)) 0 (delta inp * 2.0)
      else lerp (speed (agent r)) (targetSpeed l)
             (delta inp * (if key_w (keysPressed inp) \<or> key_s (keysPressed inp)
                           then 3.0 else 2.0)))"
  "stuckTimer (agent (smoothing inp (l, r))) = stuckTimer (agent r)"
  "recoveryTimer (agent (smoothing inp (l, r))) = recoveryTimer (agent r)"
  "retractionT (agent (smoothing inp (l, r))) = retractionT (agent r)"
  "frameCount (smoothing inp (l, r)) = frameCount r"
  "userPanelOverride (smoothing inp (l, r)) = userPanelOverride r"
  by (simp_all add: smoothing_def Let_def)


lemma decide_storm:
  assumes "stormActive inp"
  shows "\<not> performRaycastAvoidance (fst (decide inp r))"
    and "speed (agent (snd (decide inp r))) = speed (agent r)"
    and "retractionT (agent (snd (decide inp r))) = retractionT (agent r)"
    and "frameCount (snd (decide inp r)) = frameCount r"
    and "userPanelOverride (snd (decide inp r)) = userPanelOverride r"
    and "obstaclesCache (snd (decide inp r)) = obstaclesCache r"
  using assms by (auto simp: decide_def Let_def)

lemma decide_storm_target:
  assumes "stormActive inp"
    and "\<not> (key_w (keysPressed inp) \<noteq> key_s (keysPressed inp) \<and> \<not> retractionT (agent r) > 0.05)"
  shows "stopping (fst (decide inp r)) \<or> targetSpeed (fst (decide inp r)) = 0"
  using assms by (auto simp: decide_def Let_def)

lemma decide_storm_drive:
  assumes "key_w (keysPressed inp)" "\<not> key_s (keysPressed inp)" "\<not> retractionT (agent r) > 0.05"
  shows "\<not> performRaycastAvoidance (fst (decide inp r))"
    and "\<not> stopping (fst (decide inp r))"
    and "targetSpeed (fst (decide inp r)) = 5"
    and "speed (agent (snd (decide inp r))) = speed (agent r)"
    and "retractionT (agent (snd (decide inp r))) = retractionT (agent r)"
    and "userPanelOverride (snd (decide inp r)) = userPanelOverride r"
  using assms by (auto simp: decide_def Let_def)

lemma raycastSteering_off:
  "\<not> performRaycastAvoidance (fst lr) \<or> frameCount (snd lr) mod 3 \<noteq> 0 \<Longrightarrow>
     raycastSteering inp lr = lr"
  by (cases lr) (auto simp: raycastSteering_def)

lemma lerp_zero: "lerp a 0 t = (1 - t) * a"
  by (simp add: lerp_def)

lemma storm_tick_speed:
  assumes "stormActive inp" "\<not> drives inp r"
  shows "\<exists>c k. (c = 1 \<or> c = 0.95) \<and> (k = 2 \<or> k = 3)
           \<and> speed (agent (tick inp r)) = c * ((1 - delta inp * k) * speed (agent r))"
proof -
  define r1 where "r1 = refreshCache (frameStart inp r)"
  define lr where "lr = decide inp r1"
  have a1: "agent r1 = agent (frameStart inp r)"
    by (simp add: r1_def refreshCache_fields)
  have nd: "\<not> (key_w (keysPressed inp) \<noteq> key_s (keysPressed inp) \<and> \<not> retractionT (agent r1) > 0.05)"
    using assms(2) by (simp add: drives_def a1)
  have off: "raycastSteering inp lr = lr"
    using decide_storm(1) [OF assms(1), of r1] by (intro raycastSteering_off) (simp add: lr_def)
  have sp: "speed (agent (snd lr)) = speed (agent r)"
    using decide_storm(2) [OF assms(1), of r1] by (simp add: lr_def a1 frameStart_fields)
  have tg: "stopping (fst lr) \<or> targetSpeed (fst lr) = 0"
    unfolding lr_def using assms(1) nd by (rule decide_storm_target)
  define r4 where "r4 = smoothing inp lr"
  have "\<exists>k. (k = 2 \<or> k = 3) \<and> speed (agent r4) = (1 - delta inp * k) * speed (agent r)"
  proof (cases "stopping (fst lr)")
    case True
    then have "speed (agent r4) = (1 - delta inp * 2) * speed (agent r)"
      using smoothing_fields(2) [of inp "fst lr" "snd lr"] sp by (simp add: r4_def lerp_zero)
    then show ?thesis by blast
  next
    case False
    then have t0: "targetSpeed (fst lr) = 0"
      using tg by simp
    show ?thesis
    proof (cases "key_w (keysPressed inp) \<or> key_s (keysPressed inp)")
      case True
      then have "speed (agent r4) = (1 - delta inp * 3) * speed (agent r)"
        using smoothing_fields(2) [of inp "fst lr" "snd lr"] sp False t0
        by (simp add: r4_def lerp_zero)
      then show ?thesis by blast
    next
      case nk: False
      then have "speed (agent r4) = (1 - delta inp * 2) * speed (agent r)"
        using smoothing_fields(2) [of inp "fst lr" "snd lr"] sp False t0
        by (simp add: r4_def lerp_zero)
      then show ?thesis by blast
    qed
  qed
  then obtain k where k: "k = 2 \<or> k = 3" "speed (agent r4) = (1 - delta inp * k) * speed (agent r)"
    by blast
  have t: "tick inp r = suspensionUpdate (delta inp) (wheelTargets inp) (positionUpdate inp r4)"
    by (simp add: tick_unfold r4_def lr_def r1_def off [unfolded lr_def r1_def])
  have "speed (agent (tick inp r)) = speed (agent r4) \<or> speed (agent (tick inp r)) = speed (agent r4) * 0.95"
    using positionUpdate_speed [of inp r4] by (simp add: t suspensionUpdate_fields)
  then show ?thesis
    using k by (metis mult.commute mult.left_neutral)
qed

lemma storm_tick_bound:
  assumes "stormActive inp" "\<not> drives inp r" "0 \<le> delta inp" "delta inp \<le> 1 / 3"
  shows "\<bar>speed (agent (tick inp r))\<bar> \<le> (1 - 2 * delta inp) * \<bar>speed (agent r)\<bar>"
proof -
  obtain c k where c: "c = 1 \<or> c = 0.95" and k: "k = 2 \<or> k = 3"
    and s: "speed (agent (tick inp r)) = c * ((1 - delta inp * k) * speed (agent r))"
    using storm_tick_speed [OF assms(1,2)] by blast
  have f: "0 \<le> 1 - delta inp * k" "1 - delta inp * k \<le> 1 - 2 * delta inp"
    using k assms(3,4) by auto
  have "\<bar>speed (agent (tick inp r))\<bar> = c * ((1 - delta inp * k) * \<bar>speed (agent r)\<bar>)"
    using c f(1) by (auto simp: s abs_mult)
  also have "\<dots> \<le> 1 * ((1 - delta inp * k) * \<bar>speed (agent r)\<bar>)"
    using c f(1) by (intro mult_right_mono) auto
  also have "\<dots> \<le> (1 - 2 * delta inp) * \<bar>speed (agent r)\<bar>"
    using f(2) by (simp add: mult_right_mono)
  finally show ?thesis .
qed

section \<open>Storm stop\<close>

lemma stormDrive_tick:
  assumes "retractionT (agent r) = 0" "userPanelOverride r = None" "2 \<le> speed (agent r)"
  shows "retractionT (agent (tick stormDrive r)) = 0"
    and "userPanelOverride (tick stormDrive r) = None"
    and "2 \<le> speed (agent (tick stormDrive r))"
proof -
  define r1 where "r1 = refreshCache (frameStart stormDrive r)"
  define lr where "lr = decide stormDrive r1"
  define r4 where "r4 = smoothing stormDrive lr"
  have k: "key_w (keysPressed stormDrive)" "\<not> key_s (keysPressed stormDrive)"
    "\<not> autoPilot stormDrive" "delta stormDrive = 1 / 60"
    by (simp_all add: stormDrive_def calm_def noKeys_def)
  have rt1: "retractionT (agent r1) = 0" and up1: "userPanelOverride r1 = None"
    and sp1: "speed (agent r1) = speed (agent r)"
    using assms k
    by (simp_all add: r1_def refreshCache_fields frameStart_fields frameStart_retraction)
  have on: "\<not> retractionT (agent r1) > 0.05"
    using rt1 by simp
  note dd = decide_storm_drive [OF k(1,2) on]
  have off: "raycastSteering stormDrive lr = lr"
    using dd(1) by (intro raycastSteering_off) (simp add: lr_def)
  have t: "tick stormDrive r
             = suspensionUpdate (delta stormDrive) (wheelTargets stormDrive) (positionUpdate stormDrive r4)"
    by (simp add: tick_unfold r4_def lr_def r1_def off [unfolded lr_def r1_def])
  have sp4: "speed (agent r4) = 0.95 * speed (agent r) + 0.25"
    using smoothing_fields(2) [of stormDrive "fst lr" "snd lr"] dd(2,3,4) k sp1
    by (simp add: r4_def lr_def lerp_def)
  have rt4: "retractionT (agent r4) = 0" and up4: "userPanelOverride r4 = None"
    using smoothing_fields(5,7) [of stormDrive "fst lr" "snd lr"] dd(5,6) rt1 up1
    by (simp_all add: r4_def lr_def)
  show "retractionT (agent (tick stormDrive r)) = 0"
    by (simp add: t suspensionUpdate_fields positionUpdate_fields rt4)
  show "userPanelOverride (tick stormDrive r) = None"
    by (simp add: t suspensionUpdate_fields positionUpdate_fields up4)
  have "speed (agent (tick stormDrive r)) = speed (agent r4)
        \<or> speed (agent (tick stormDrive r)) = speed (agent r4) * 0.95"
    using positionUpdate_speed [of stormDrive r4] by (simp add: t suspensionUpdate_fields)
  then show "2 \<le> speed (agent (tick stormDrive r))"
    using sp4 assms(3) by auto
qed

lemma stormDrive_run:
  assumes "retractionT (agent r) = 0" "userPanelOverride r = None" "2 \<le> speed (agent r)"
  shows "2 \<le> speed (agent (run (replicate n stormDrive) r))"
  using assms
proof (induction n arbitrary: r)
  case 0
  then show ?case by simp
next
  case (Suc n)
  show ?case
    using Suc.IH [OF stormDrive_tick [OF Suc.prems]] by simp
qed

text \<open>
  Claim C5 as stated fails: manual input is checked first, and with the autopilot off
  the panels stay extended in a storm, so the systems stay online. With w held in a
  storm, the rover that is mounted with speed 2 still has a speed of at least 2 after
  60 frames.
\<close>

theorem storm_halts_counterexample:
  "stormActive stormDrive
   \<and> speed (agent initialRover) = 2
   \<and> 2 \<le> speed (agent (run (replicate 60 stormDrive) initialRover))"
proof -
  have "retractionT (agent initialRover) = 0" "userPanelOverride initialRover = None"
    "2 \<le> speed (agent initialRover)"
    by (simp_all add: initialRover_def initialAgent_def)
  then have "2 \<le> speed (agent (run (replicate 60 stormDrive) initialRover))"
    by (rule stormDrive_run)
  moreover have "stormActive stormDrive" "speed (agent initialRover) = 2"
    by (simp_all add: stormDrive_def calm_def initialRover_def initialAgent_def)
  ultimately show ?thesis
    by simp
qed


text \<open>
  Claim C5, amended. While the storm is active and the rover is not under manual
  throttle with its systems online, a frame with a frame time of at most a third of a
  second multiplies the speed by a factor between 0 and \<open>1 - 2 \<times> delta\<close>, whatever the
  autopilot switch, the threat phase and the rest of the state are. Over \<open>n\<close> such
  frames with frame times of at least \<open>d\<close> the magnitude of the speed is at most
  \<open>(1 - 2d)\<^sup>n\<close> times what it was, and a speed of 0 stays 0.
\<close>

theorem storm_halts:
  "0 \<le> d \<Longrightarrow> stormRun d inps r \<Longrightarrow>
     \<bar>speed (agent (run inps r))\<bar> \<le> (1 - 2 * d) ^ length inps * \<bar>speed (agent r)\<bar>
     \<and> (speed (agent r) = 0 \<longrightarrow> speed (agent (run inps r)) = 0)"
proof -
  assume d: "0 \<le> d"
  have b: "stormRun d inps r \<Longrightarrow>
     \<bar>speed (agent (run inps r))\<bar> \<le> (1 - 2 * d) ^ length inps * \<bar>speed (agent r)\<bar>" for inps r
  proof (induction inps arbitrary: r)
    case Nil
    then show ?case by simp
  next
    case (Cons inp inps)
    then have h: "stormActive inp" "\<not> drives inp r" "d \<le> delta inp" "delta inp \<le> 1 / 3"
      "stormRun d inps (tick inp r)"
      by simp_all
    have q: "0 \<le> 1 - 2 * d" "1 - 2 * delta inp \<le> 1 - 2 * d"
      using h(3,4) by simp_all
    have "\<bar>speed (agent (run inps (tick inp r)))\<bar>
            \<le> (1 - 2 * d) ^ length inps * \<bar>speed (agent (tick inp r))\<bar>"
      using Cons.IH [OF h(5)] .
    also have "\<dots> \<le> (1 - 2 * d) ^ length inps * ((1 - 2 * delta inp) * \<bar>speed (agent r)\<bar>)"
      using storm_tick_bound [OF h(1,2) _ h(4)] d h(3) q(1)
      by (intro mult_left_mono) auto
    also have "\<dots> \<le> (1 - 2 * d) ^ length inps * ((1 - 2 * d) * \<bar>speed (agent r)\<bar>)"
      using q by (intro mult_left_mono mult_right_mono) auto
    finally show ?case by (simp add: mult.left_commute)
  qed
  assume "stormRun d inps r"
  then have "\<bar>speed (agent (run inps r))\<bar> \<le> (1 - 2 * d) ^ length inps * \<bar>speed (agent r)\<bar>"
    by (rule b)
  then show ?thesis by auto
qed


theorem storm_halts_witness:
  "(0::real) \<le> 1 / 60 \<and> stormRun (1 / 60) [stormy, stormy, stormy] initialRover
   \<and> \<bar>speed (agent (run [stormy, stormy, stormy] initialRover))\<bar> \<le> (29 / 30) ^ 3 * 2"
proof -
  have nd: "\<not> drives stormy r" for r
    by (simp add: drives_def stormy_def calm_def)
  have s: "stormRun (1 / 60) [stormy, stormy, stormy] initialRover"
    using nd by (simp add: stormy_def calm_def)
  have "\<bar>speed (agent (run [stormy, stormy, stormy] initialRover))\<bar>
          \<le> (1 - 2 * (1 / 60)) ^ length [stormy, stormy, stormy] * \<bar>speed (agent initialRover)\<bar>"
    using storm_halts [OF _ s] by simp
  moreover have "\<bar>speed (agent initialRover)\<bar> = 2"
    by (simp add: initialRover_def initialAgent_def)
  ultimately have "\<bar>speed (agent (run [stormy, stormy, stormy] initialRover))\<bar> \<le> (29 / 30) ^ 3 * 2"
    by (simp add: power3_eq_cube)
  with s show ?thesis by simp
qed

section \<open>Stuck and recovery\<close>

lemma decide_wander:
  assumes "wandering inp" "\<not> retractionT (agent r) > 0.05"
  shows "decide inp r = (wander, r\<lparr>agent := (agent r)\<lparr>currentCoverTarget := None\<rparr>\<rparr>)"
  using assms by (simp add: decide_def wandering_def noKeys_def wander_def Let_def)

lemma wander_prelude:
  assumes "wandering inp" "retractionT (agent r) = 0"
  shows "retractionT (agent (refreshCache (frameStart inp r))) = 0"
  using assms by (simp add: refreshCache_fields frameStart_retraction wandering_def)

lemma stuckUpdate_fields:
  "recoveryTimer (stuckUpdate inp st l a) = recoveryTimer a"
  "steerAngle (stuckUpdate inp st l a) = steerAngle a"
  "(stuckUpdate inp st l a)\<lparr>recoveryTimer := x, stuckTimer := t\<rparr>
     = a\<lparr>stuckTimer := t, recoveryTimer := x\<rparr>"
  by (simp_all add: stuckUpdate_def Let_def)

lemma stuckUpdate_stuck:
  assumes "\<bar>targetSpeed l\<bar> > 0.1" "\<not> \<bar>speed a\<bar> > 0.1" "recoveryTimer a \<le> 0"
  shows "stuckUpdate inp st l a = a\<lparr>stuckTimer := stuckTimer a + delta inp * 3\<rparr>"
  using assms by (simp add: stuckUpdate_def Let_def)

lemma afterSearch_entry:
  assumes "targetSpeed l = 2" "\<not> \<bar>speed (agent r)\<bar> > 0.1" "recoveryTimer (agent r) \<le> 0"
    "1 < stuckTimer (agent r) + delta inp * 3" "delta inp * 3 < 2"
  shows "afterSearch inp st (l, r) =
           (l\<lparr>targetSpeed := - 2, targetSteer := (if randomSide inp > 0.5 then - 1 else 1)\<rparr>,
            r\<lparr>agent := (agent r)\<lparr>stuckTimer := 0, recoveryTimer := 2 - delta inp * 3,
                                  steerAngle := (if randomSide inp > 0.5 then - 1 else 1)\<rparr>\<rparr>)"
proof -
  define side :: real where "side = (if randomSide inp > 0.5 then - 1 else 1)"
  define a1 where "a1 = (agent r)\<lparr>stuckTimer := stuckTimer (agent r) + delta inp * 3\<rparr>"
  define a2 where "a2 = a1\<lparr>recoveryTimer := 2, steerAngle := side\<rparr>"
  define a3 where "a3 = a2\<lparr>recoveryTimer := 2 - delta inp * 3, stuckTimer := 0\<rparr>"
  define l3 where "l3 = l\<lparr>targetSpeed := - 2, targetSteer := side\<rparr>"
  have s1: "stuckUpdate inp st l (agent r) = a1"
    unfolding a1_def using assms(1,2,3) by (intro stuckUpdate_stuck) simp_all
  have s2: "recoveryStart inp a1 = a2"
    using assms(3,4) by (simp add: recoveryStart_def a1_def a2_def side_def)
  have s3: "recoverySteer inp st (l, a2) = (l3, a3)"
    by (simp add: recoverySteer_def a2_def a3_def l3_def)
  have "\<not> recoveryTimer a3 \<le> 0"
    using assms(5) by (simp add: a3_def)
  then have s4: "turnBraking st l3 a3 = l3"
    by (simp add: turnBraking_def)
  have "afterSearch inp st (l, r) = (l3, r\<lparr>agent := a3\<rparr>)"
    by (simp add: afterSearch_def Let_def s1 s2 s3 s4)
  then show ?thesis
    by (simp add: l3_def a3_def a2_def a1_def side_def)
qed

lemma wander_tick_skip:
  assumes "wandering inp" "retractionT (agent r) = 0" "(frameCount r + 1) mod 3 \<noteq> 0"
  shows "steerAngle (agent (tick inp r)) = lerp (steerAngle (agent r)) 0 (delta inp * 10)"
    and "recoveryTimer (agent (tick inp r)) = recoveryTimer (agent r)"
    and "speed (agent (tick inp r)) = lerp (speed (agent r)) 2 (delta inp * 2)
         \<or> speed (agent (tick inp r)) = lerp (speed (agent r)) 2 (delta inp * 2) * 0.95"
    and "retractionT (agent (tick inp r)) = 0"
    and "frameCount (tick inp r) = frameCount r + 1"
proof -
  define r1 where "r1 = refreshCache (frameStart inp r)"
  define r2 where "r2 = r1\<lparr>agent := (agent r1)\<lparr>currentCoverTarget := None\<rparr>\<rparr>"
  have rt1: "retractionT (agent r1) = 0"
    unfolding r1_def using assms(1,2) by (rule wander_prelude)
  have d: "decide inp r1 = (wander, r2)"
    unfolding r2_def using assms(1) rt1 by (intro decide_wander) simp_all
  have fc: "frameCount r2 = frameCount r + 1"
    by (simp add: r2_def r1_def refreshCache_fields frameStart_fields)
  have off: "raycastSteering inp (wander, r2) = (wander, r2)"
    using assms(3) fc by (intro raycastSteering_off) simp
  define r4 where "r4 = smoothing inp (wander, r2)"
  have t: "tick inp r = suspensionUpdate (delta inp) (wheelTargets inp) (positionUpdate inp r4)"
    by (simp add: tick_unfold r1_def [symmetric] d off r4_def)
  have a2: "steerAngle (agent r2) = steerAngle (agent r)" "speed (agent r2) = speed (agent r)"
    "recoveryTimer (agent r2) = recoveryTimer (agent r)" "retractionT (agent r2) = 0"
    using rt1 by (simp_all add: r2_def r1_def refreshCache_fields frameStart_fields)
  have k: "\<not> (key_w (keysPressed inp) \<or> key_s (keysPressed inp))"
    using assms(1) by (simp add: wandering_def noKeys_def)
  have w: "targetSteer wander = 0" "targetSpeed wander = 2" "\<not> stopping wander"
    by (simp_all add: wander_def)
  show "steerAngle (agent (tick inp r)) = lerp (steerAngle (agent r)) 0 (delta inp * 10)"
    by (simp add: t suspensionUpdate_fields positionUpdate_fields r4_def smoothing_fields a2 w)
  show "recoveryTimer (agent (tick inp r)) = recoveryTimer (agent r)"
    by (simp add: t suspensionUpdate_fields positionUpdate_fields r4_def smoothing_fields a2)
  show "retractionT (agent (tick inp r)) = 0"
    by (simp add: t suspensionUpdate_fields positionUpdate_fields r4_def smoothing_fields a2)
  show "frameCount (tick inp r) = frameCount r + 1"
    by (simp add: t suspensionUpdate_fields positionUpdate_fields r4_def smoothing_fields fc)
  have "speed (agent r4) = lerp (speed (agent r)) 2 (delta inp * 2)"
    using k by (simp add: r4_def smoothing_fields a2 w)
  then show "speed (agent (tick inp r)) = lerp (speed (agent r)) 2 (delta inp * 2)
         \<or> speed (agent (tick inp r)) = lerp (speed (agent r)) 2 (delta inp * 2) * 0.95"
    using positionUpdate_speed [of inp r4] by (simp add: t suspensionUpdate_fields)
qed

lemma wander_tick_entry:
  assumes "wandering inp" "retractionT (agent r) = 0" "(frameCount r + 1) mod 3 = 0"
    and "\<not> \<bar>speed (agent r)\<bar> > 0.1" "recoveryTimer (agent r) \<le> 0"
    and "1 < stuckTimer (agent r) + delta inp * 3" "delta inp * 3 < 2"
  shows "steerAngle (agent (tick inp r)) = (if randomSide inp > 0.5 then - 1 else 1)"
    and "recoveryTimer (agent (tick inp r)) = 2 - delta inp * 3"
    and "stuckTimer (agent (tick inp r)) = 0"
    and "speed (agent (tick inp r)) = lerp (speed (agent r)) (- 2) (delta inp * 2)
         \<or> speed (agent (tick inp r)) = lerp (speed (agent r)) (- 2) (delta inp * 2) * 0.95"
    and "retractionT (agent (tick inp r)) = 0"
    and "frameCount (tick inp r) = frameCount r + 1"
proof -
  define r1 where "r1 = refreshCache (frameStart inp r)"
  define r2 where "r2 = r1\<lparr>agent := (agent r1)\<lparr>currentCoverTarget := None\<rparr>\<rparr>"
  define side :: real where "side = (if randomSide inp > 0.5 then - 1 else 1)"
  define l3 where "l3 = wander\<lparr>targetSpeed := - 2, targetSteer := side\<rparr>"
  define r3 where "r3 = r2\<lparr>agent := (agent r2)\<lparr>stuckTimer := 0, recoveryTimer := 2 - delta inp * 3,
                                  steerAngle := side\<rparr>\<rparr>"
  have rt1: "retractionT (agent r1) = 0"
    unfolding r1_def using assms(1,2) by (rule wander_prelude)
  have d: "decide inp r1 = (wander, r2)"
    unfolding r2_def using assms(1) rt1 by (intro decide_wander) simp_all
  have fc: "frameCount r2 = frameCount r + 1"
    by (simp add: r2_def r1_def refreshCache_fields frameStart_fields)
  have a2: "speed (agent r2) = speed (agent r)" "stuckTimer (agent r2) = stuckTimer (agent r)"
    "recoveryTimer (agent r2) = recoveryTimer (agent r)" "retractionT (agent r2) = 0"
    using rt1 by (simp_all add: r2_def r1_def refreshCache_fields frameStart_fields)
  have w: "targetSpeed wander = 2" "performRaycastAvoidance wander" "\<not> stopping wander"
    by (simp_all add: wander_def)
  have as: "afterSearch inp (costSearch r2 wander) (wander, r2) = (l3, r3)"
    unfolding l3_def r3_def side_def using w(1) assms(4-7)
    by (intro afterSearch_entry) (simp_all add: a2)
  have rs: "raycastSteering inp (wander, r2) = (l3, r3)"
    using w(2) assms(3) fc as by (simp add: raycastSteering_def)
  define r4 where "r4 = smoothing inp (l3, r3)"
  have t: "tick inp r = suspensionUpdate (delta inp) (wheelTargets inp) (positionUpdate inp r4)"
    by (simp add: tick_unfold r1_def [symmetric] d rs r4_def)
  have k: "\<not> (key_w (keysPressed inp) \<or> key_s (keysPressed inp))"
    using assms(1) by (simp add: wandering_def noKeys_def)
  have l3: "targetSteer l3 = side" "targetSpeed l3 = - 2" "\<not> stopping l3"
    using w(3) by (simp_all add: l3_def)
  have a3: "steerAngle (agent r3) = side" "speed (agent r3) = speed (agent r)"
    "recoveryTimer (agent r3) = 2 - delta inp * 3" "stuckTimer (agent r3) = 0"
    "retractionT (agent r3) = 0" "frameCount r3 = frameCount r + 1"
    using a2 fc by (simp_all add: r3_def)
  show "steerAngle (agent (tick inp r)) = (if randomSide inp > 0.5 then - 1 else 1)"
    by (simp add: t suspensionUpdate_fields positionUpdate_fields r4_def smoothing_fields a3 l3
        lerp_def side_def algebra_simps)
  show "recoveryTimer (agent (tick inp r)) = 2 - delta inp * 3"
    by (simp add: t suspensionUpdate_fields positionUpdate_fields r4_def smoothing_fields a3)
  show "stuckTimer (agent (tick inp r)) = 0"
    by (simp add: t suspensionUpdate_fields positionUpdate_fields r4_def smoothing_fields a3)
  show "retractionT (agent (tick inp r)) = 0"
    by (simp add: t suspensionUpdate_fields positionUpdate_fields r4_def smoothing_fields a3)
  show "frameCount (tick inp r) = frameCount r + 1"
    by (simp add: t suspensionUpdate_fields positionUpdate_fields r4_def smoothing_fields a3)
  have "speed (agent r4) = lerp (speed (agent r)) (- 2) (delta inp * 2)"
    using k by (simp add: r4_def smoothing_fields a3 l3)
  then show "speed (agent (tick inp r)) = lerp (speed (agent r)) (- 2) (delta inp * 2)
         \<or> speed (agent (tick inp r)) = lerp (speed (agent r)) (- 2) (delta inp * 2) * 0.95"
    using positionUpdate_speed [of inp r4] by (simp add: t suspensionUpdate_fields)
qed


lemma afterSearch_recovering:
  assumes "delta inp * 3 < recoveryTimer (agent r)" "0 \<le> delta inp"
  shows "afterSearch inp st (l, r) =
           (l\<lparr>targetSpeed := - 2, targetSteer := steerAngle (agent r)\<rparr>,
            r\<lparr>agent := (agent r)\<lparr>stuckTimer := 0,
                                  recoveryTimer := recoveryTimer (agent r) - delta inp * 3\<rparr>\<rparr>)"
proof -
  define a1 where "a1 = stuckUpdate inp st l (agent r)"
  define a3 where "a3 = a1\<lparr>recoveryTimer := recoveryTimer (agent r) - delta inp * 3, stuckTimer := 0\<rparr>"
  define l3 where "l3 = l\<lparr>targetSpeed := - 2, targetSteer := steerAngle (agent r)\<rparr>"
  have p: "0 < recoveryTimer (agent r)"
    using assms by linarith
  have f1: "recoveryTimer a1 = recoveryTimer (agent r)" "steerAngle a1 = steerAngle (agent r)"
    by (simp_all add: a1_def stuckUpdate_fields)
  have s2: "recoveryStart inp a1 = a1"
    using p by (simp add: recoveryStart_def f1)
  have s3: "recoverySteer inp st (l, a1) = (l3, a3)"
    using p by (simp add: recoverySteer_def f1 a3_def l3_def)
  have "\<not> recoveryTimer a3 \<le> 0"
    using assms(1) by (simp add: a3_def)
  then have s4: "turnBraking st l3 a3 = l3"
    by (simp add: turnBraking_def)
  have e: "a3 = (agent r)\<lparr>stuckTimer := 0,
                            recoveryTimer := recoveryTimer (agent r) - delta inp * 3\<rparr>"
    by (simp add: a3_def a1_def stuckUpdate_fields(3))
  have "afterSearch inp st (l, r) = (l3, r\<lparr>agent := a3\<rparr>)"
    by (simp add: afterSearch_def Let_def a1_def [symmetric] s2 s3 s4)
  then show ?thesis
    by (simp add: l3_def e)
qed

lemma wander_tick_recovering:
  assumes "wandering inp" "retractionT (agent r) = 0" "(frameCount r + 1) mod 3 = 0"
    and "delta inp * 3 < recoveryTimer (agent r)"
  shows "steerAngle (agent (tick inp r)) = steerAngle (agent r)"
    and "recoveryTimer (agent (tick inp r)) = recoveryTimer (agent r) - delta inp * 3"
    and "speed (agent (tick inp r)) = lerp (speed (agent r)) (- 2) (delta inp * 2)
         \<or> speed (agent (tick inp r)) = lerp (speed (agent r)) (- 2) (delta inp * 2) * 0.95"
    and "retractionT (agent (tick inp r)) = 0"
    and "frameCount (tick inp r) = frameCount r + 1"
proof -
  define r1 where "r1 = refreshCache (frameStart inp r)"
  define r2 where "r2 = r1\<lparr>agent := (agent r1)\<lparr>currentCoverTarget := None\<rparr>\<rparr>"
  define l3 where "l3 = wander\<lparr>targetSpeed := - 2, targetSteer := steerAngle (agent r)\<rparr>"
  define r3 where "r3 = r2\<lparr>agent := (agent r2)\<lparr>stuckTimer := 0,
                                  recoveryTimer := recoveryTimer (agent r) - delta inp * 3\<rparr>\<rparr>"
  have rt1: "retractionT (agent r1) = 0"
    unfolding r1_def using assms(1,2) by (rule wander_prelude)
  have d: "decide inp r1 = (wander, r2)"
    unfolding r2_def using assms(1) rt1 by (intro decide_wander) simp_all
  have fc: "frameCount r2 = frameCount r + 1"
    by (simp add: r2_def r1_def refreshCache_fields frameStart_fields)
  have a2: "speed (agent r2) = speed (agent r)" "steerAngle (agent r2) = steerAngle (agent r)"
    "recoveryTimer (agent r2) = recoveryTimer (agent r)" "retractionT (agent r2) = 0"
    using rt1 by (simp_all add: r2_def r1_def refreshCache_fields frameStart_fields)
  have w: "performRaycastAvoidance wander" "\<not> stopping wander"
    by (simp_all add: wander_def)
  have nn: "0 \<le> delta inp"
    using assms(1) by (simp add: wandering_def)
  have as: "afterSearch inp (costSearch r2 wander) (wander, r2) = (l3, r3)"
    using afterSearch_recovering [of inp r2 "costSearch r2 wander" wander] assms(4) nn
    by (simp add: a2 l3_def r3_def)
  have rs: "raycastSteering inp (wander, r2) = (l3, r3)"
    using w(1) assms(3) fc as by (simp add: raycastSteering_def)
  define r4 where "r4 = smoothing inp (l3, r3)"
  have t: "tick inp r = suspensionUpdate (delta inp) (wheelTargets inp) (positionUpdate inp r4)"
    by (simp add: tick_unfold r1_def [symmetric] d rs r4_def)
  have k: "\<not> (key_w (keysPressed inp) \<or> key_s (keysPressed inp))"
    using assms(1) by (simp add: wandering_def noKeys_def)
  have l3: "targetSteer l3 = steerAngle (agent r)" "targetSpeed l3 = - 2" "\<not> stopping l3"
    using w(2) by (simp_all add: l3_def)
  have a3: "steerAngle (agent r3) = steerAngle (agent r)" "speed (agent r3) = speed (agent r)"
    "recoveryTimer (agent r3) = recoveryTimer (agent r) - delta inp * 3"
    "retractionT (agent r3) = 0" "frameCount r3 = frameCount r + 1"
    using a2 fc by (simp_all add: r3_def)
  show "steerAngle (agent (tick inp r)) = steerAngle (agent r)"
    by (simp add: t suspensionUpdate_fields positionUpdate_fields r4_def smoothing_fields a3 l3
        lerp_def algebra_simps)
  show "recoveryTimer (agent (tick inp r)) = recoveryTimer (agent r) - delta inp * 3"
    by (simp add: t suspensionUpdate_fields positionUpdate_fields r4_def smoothing_fields a3)
  show "retractionT (agent (tick inp r)) = 0"
    by (simp add: t suspensionUpdate_fields positionUpdate_fields r4_def smoothing_fields a3)
  show "frameCount (tick inp r) = frameCount r + 1"
    by (simp add: t suspensionUpdate_fields positionUpdate_fields r4_def smoothing_fields a3)
  have "speed (agent r4) = lerp (speed (agent r)) (- 2) (delta inp * 2)"
    using k by (simp add: r4_def smoothing_fields a3 l3)
  then show "speed (agent (tick inp r)) = lerp (speed (agent r)) (- 2) (delta inp * 2)
         \<or> speed (agent (tick inp r)) = lerp (speed (agent r)) (- 2) (delta inp * 2) * 0.95"
    using positionUpdate_speed [of inp r4] by (simp add: t suspensionUpdate_fields)
qed



text \<open>
  Claim C6, on a rover at rest whose stuck timer is at 0.99, wandering at 60 frames per
  second. Frame 3 runs the search: the stuck timer passes 1, recovery starts (timer 2,
  less the 0.05 of that frame), the steer is 1 and the speed turns negative. Frames 4
  and 5 skip the throttled block, so the targets are the defaults of the mode (steer 0,
  speed 2): the recovery timer stands at 1.95, yet the steer falls to 5/6 and 25/36 and
  the speed is positive again. Frame 6 runs the block again and holds the steer at
  what is left of it, 25/36.
\<close>

theorem recovery_not_held:
  "(let r1 = tick calm stuckRover;
        r2 = tick calm r1;
        r3 = tick calm r2;
        r4 = tick calm r3
    in frameCount r1 = 3
       \<and> recoveryTimer (agent r1) = 39 / 20 \<and> steerAngle (agent r1) = 1 \<and> speed (agent r1) < 0
       \<and> recoveryTimer (agent r2) = 39 / 20 \<and> steerAngle (agent r2) = 5 / 6
       \<and> 0 < speed (agent r2)
       \<and> recoveryTimer (agent r3) = 39 / 20 \<and> steerAngle (agent r3) = 25 / 36
       \<and> 0 < speed (agent r3)
       \<and> frameCount r4 = 6
       \<and> recoveryTimer (agent r4) = 19 / 10 \<and> steerAngle (agent r4) = 25 / 36)"
proof -
  define r1 where "r1 = tick calm stuckRover"
  define r2 where "r2 = tick calm r1"
  define r3 where "r3 = tick calm r2"
  define r4 where "r4 = tick calm r3"
  have w: "wandering calm" and c: "delta calm = 1 / 60" "randomSide calm = 0.3"
    by (simp_all add: wandering_def calm_def noKeys_def)
  have s0: "retractionT (agent stuckRover) = 0" "frameCount stuckRover = 2"
    "speed (agent stuckRover) = 0" "recoveryTimer (agent stuckRover) = 0"
    "stuckTimer (agent stuckRover) = 0.99"
    by (simp_all add: stuckRover_def initialRover_def initialAgent_def)
  note e = wander_tick_entry [OF w s0(1), folded r1_def]
  have e1: "steerAngle (agent r1) = 1" "recoveryTimer (agent r1) = 39 / 20"
    "retractionT (agent r1) = 0" "frameCount r1 = 3"
    "speed (agent r1) = - (1 / 15) \<or> speed (agent r1) = - (1 / 15) * 0.95"
    using e by (simp_all add: s0 c lerp_def)
  note k2 = wander_tick_skip [OF w e1(3), folded r2_def]
  have e2: "steerAngle (agent r2) = 5 / 6" "recoveryTimer (agent r2) = 39 / 20"
    "retractionT (agent r2) = 0" "frameCount r2 = 4"
    using k2 by (simp_all add: e1 c lerp_def)
  have v2: "0 < speed (agent r2)"
    using k2(3) e1(5) by (auto simp: e1(4) c lerp_def)
  note k3 = wander_tick_skip [OF w e2(3), folded r3_def]
  have e3: "steerAngle (agent r3) = 25 / 36" "recoveryTimer (agent r3) = 39 / 20"
    "retractionT (agent r3) = 0" "frameCount r3 = 5"
    using k3 by (simp_all add: e2 c lerp_def)
  have "0 < lerp (speed (agent r2)) 2 (delta calm * 2)"
    using v2 by (simp add: c lerp_def)
  then have v3: "0 < speed (agent r3)"
    using k3(3) by (auto simp: e2(4))
  note k4 = wander_tick_recovering [OF w e3(3), folded r4_def]
  have e4: "steerAngle (agent r4) = 25 / 36" "recoveryTimer (agent r4) = 19 / 10"
    "frameCount r4 = 6"
    using k4 by (simp_all add: e3 c)
  show ?thesis
    unfolding Let_def r1_def [symmetric] r2_def [symmetric] r3_def [symmetric] r4_def [symmetric]
    using e1 e2 e3 e4 v2 v3 by auto
qed

end
